theory Spec2Isabelle
  imports Main "HOL-Library.Word" "HOL-Library.Sublist"
begin

unbundle bit_operations_syntax

section \<open>Buffers and the reads the parser performs\<close>

text \<open>
  A Node.js \<open>Buffer\<close> is a sequence of bytes. Offsets and lengths are JavaScript numbers
  that stay far below \<open>2 ^ 53\<close>, where their arithmetic is exact: they are natural numbers.
\<close>

type_synonym byte = "8 word"
type_synonym buffer = "byte list"

text \<open>
  A JavaScript string is a sequence of 16-bit code units. \<open>js\<close> gives the code units of
  a string literal of the source (all of them are ASCII).
\<close>

type_synonym jsstring = "16 word list"

definition js :: "string \<Rightarrow> jsstring" where
  "js s = map of_char s"

text \<open>
  What a \<open>throw\<close> or a rejected promise carries: an \<open>Error\<close> with its message; the
  \<open>RangeError\<close> that \<open>readUInt16LE\<close> and \<open>readUInt32LE\<close> raise for a read that does
  not fit in the buffer (its message stands for the runtime's text, which depends on the
  offset); the \<open>TypeError\<close> of the runtime; or a value that is not an error object at
  all, given by its string conversion.
\<close>

datatype thrown = Error jsstring | RangeError jsstring | TypeError jsstring | NotAnError jsstring

text \<open>
  \<open>buf.toString("ascii", start, end)\<close>: the bytes of the range, clamped to the buffer,
  each with its highest bit cleared (the Node.js documentation of the \<open>ascii\<close> encoding:
  decoding a buffer with it "will additionally unset the highest bit of each byte").
\<close>

definition toString_ascii :: "buffer \<Rightarrow> nat \<Rightarrow> nat \<Rightarrow> jsstring" where
  "toString_ascii buf start end' =
     map (\<lambda>b. ucast (b AND 0x7F)) (take (end' - start) (drop start buf))"

definition readUInt16LE :: "buffer \<Rightarrow> nat \<Rightarrow> thrown + nat" where
  "readUInt16LE buf off =
     (if off + 2 \<le> length buf
      then Inr (unat (buf ! off) + 256 * unat (buf ! (off + 1)))
      else Inl (RangeError (js ''ERR_OUT_OF_RANGE'')))"

definition readUInt32LE :: "buffer \<Rightarrow> nat \<Rightarrow> thrown + nat" where
  "readUInt32LE buf off =
     (if off + 4 \<le> length buf
      then Inr (unat (buf ! off) + 256 * unat (buf ! (off + 1))
                + 65536 * unat (buf ! (off + 2)) + 16777216 * unat (buf ! (off + 3)))
      else Inl (RangeError (js ''ERR_OUT_OF_RANGE'')))"

text \<open>The little-endian values that the two reads return when the read fits.\<close>

definition u16_at :: "buffer \<Rightarrow> nat \<Rightarrow> nat" where
  "u16_at buf off = unat (buf ! off) + 256 * unat (buf ! (off + 1))"

definition u32_at :: "buffer \<Rightarrow> nat \<Rightarrow> nat" where
  "u32_at buf off = unat (buf ! off) + 256 * unat (buf ! (off + 1))
     + 65536 * unat (buf ! (off + 2)) + 16777216 * unat (buf ! (off + 3))"

section \<open>parseWav\<close>

record fmt_chunk =
  audioFormat :: nat
  numChannels :: nat
  sampleRate :: nat
  bitsPerSample :: nat

record wav_header = fmt_chunk +
  dataOffset :: nat
  dataSize :: nat
  pcmBytes :: nat

text \<open>
  The variables of the chunk loop: the cursor, the last \<open>fmt\<close> object and the last
  \<open>data\<close> object (\<open>dataOffset\<close>, \<open>dataSize\<close>), both \<open>null\<close> at the start.
\<close>

record scan_state =
  offset :: nat
  fmt :: "fmt_chunk option"
  data :: "(nat \<times> nat) option"

datatype body_result = Break | Throw thrown | Continue scan_state

text \<open>The \<open>fmt\<close> branch of the loop body: four little-endian reads inside the payload.\<close>

definition read_fmt :: "buffer \<Rightarrow> nat \<Rightarrow> nat \<Rightarrow> thrown + fmt_chunk" where
  "read_fmt buf payloadOffset size' =
     (if size' < 16 then Inl (Error (js ''Invalid WAV fmt chunk.''))
      else (case readUInt16LE buf (payloadOffset + 0) of Inl e \<Rightarrow> Inl e | Inr af \<Rightarrow>
           (case readUInt16LE buf (payloadOffset + 2) of Inl e \<Rightarrow> Inl e | Inr nc \<Rightarrow>
           (case readUInt32LE buf (payloadOffset + 4) of Inl e \<Rightarrow> Inl e | Inr sr \<Rightarrow>
           (case readUInt16LE buf (payloadOffset + 14) of Inl e \<Rightarrow> Inl e | Inr bps \<Rightarrow>
             Inr \<lparr>audioFormat = af, numChannels = nc, sampleRate = sr,
                  bitsPerSample = bps\<rparr>)))))"

text \<open>
  One pass through the body of \<open>while (offset + 8 <= buf.length)\<close>: it leaves the loop
  (\<open>break\<close>), throws, or goes on with new values of the three variables.
\<close>

definition loop_body :: "buffer \<Rightarrow> scan_state \<Rightarrow> body_result" where
  "loop_body buf st =
     (let id' = toString_ascii buf (offset st) (offset st + 4) in
      case readUInt32LE buf (offset st + 4) of
        Inl e \<Rightarrow> Throw e
      | Inr size' \<Rightarrow>
         (let payloadOffset = offset st + 8 in
          if payloadOffset + size' > length buf then Break
          else
           (case (if id' = js ''fmt ''
                  then map_sum (\<lambda>e. e) Some (read_fmt buf payloadOffset size')
                  else Inr (fmt st)) of
              Inl e \<Rightarrow> Throw e
            | Inr fmt' \<Rightarrow>
               (let data' = (if id' = js ''data'' then Some (payloadOffset, size')
                             else data st)
                in Continue \<lparr>offset = payloadOffset + size' + size' mod 2,
                              fmt = fmt', data = data'\<rparr>))))"

lemma loop_body_advances:
  "loop_body buf st = Continue st' \<Longrightarrow> offset st + 8 \<le> offset st'"
  by (auto simp: loop_body_def Let_def split: sum.splits if_splits)

lemma loop_body_within:
  "loop_body buf st = Continue st' \<Longrightarrow> offset st + 8 \<le> length buf"
  by (auto simp: loop_body_def Let_def readUInt32LE_def split: sum.splits if_splits)

function scan :: "buffer \<Rightarrow> scan_state \<Rightarrow> thrown + scan_state" where
  "scan buf st =
     (if offset st + 8 \<le> length buf
      then (case loop_body buf st of
              Break \<Rightarrow> Inr st
            | Throw e \<Rightarrow> Inl e
            | Continue st' \<Rightarrow> scan buf st')
      else Inr st)"
  by pat_completeness auto
termination
proof (relation "measure (\<lambda>(buf, st). length buf - offset st)")
  show "wf (measure (\<lambda>(buf, st). length buf - offset st))"
    by simp
next
  fix buf :: buffer and st st' :: scan_state
  assume "offset st + 8 \<le> length buf" and "loop_body buf st = Continue st'"
  then show "((buf, st'), (buf, st)) \<in> measure (\<lambda>(buf, st). length buf - offset st)"
    using loop_body_advances [of buf st st'] by simp
qed

declare scan.simps [simp del]

text \<open>
  \<open>parseWav\<close>. Its argument is always a buffer here (the handler passes the result of
  \<open>Buffer.from\<close>), so of the first test only the length remains.
\<close>

definition parseWav :: "buffer \<Rightarrow> thrown + wav_header" where
  "parseWav buf =
     (if length buf < 12 then Inl (Error (js ''Invalid WAV buffer.''))
      else
        let chunkId = toString_ascii buf 0 4;
            format = toString_ascii buf 8 12
        in
        if chunkId \<noteq> js ''RIFF'' \<or> format \<noteq> js ''WAVE''
        then Inl (Error (js ''Invalid WAV: expected RIFF/WAVE.''))
        else
          case scan buf \<lparr>offset = 12, fmt = None, data = None\<rparr> of
            Inl e \<Rightarrow> Inl e
          | Inr st \<Rightarrow>
              (case fmt st of
                 None \<Rightarrow> Inl (Error (js ''WAV missing fmt chunk.''))
               | Some f \<Rightarrow>
                   (case data st of
                      None \<Rightarrow> Inl (Error (js ''WAV missing data chunk.''))
                    | Some (dOff, dSize) \<Rightarrow>
                        Inr \<lparr>audioFormat = audioFormat f, numChannels = numChannels f,
                             sampleRate = sampleRate f, bitsPerSample = bitsPerSample f,
                             dataOffset = dOff, dataSize = dSize, pcmBytes = dSize\<rparr>)))"


text \<open>
  \<open>wavBuffer.subarray(start, end)\<close>: a view of the bytes from \<open>start\<close> up to \<open>end\<close>, both
  clamped to the buffer; empty when \<open>end\<close> is not after \<open>start\<close>.
\<close>

definition subarray :: "buffer \<Rightarrow> nat \<Rightarrow> nat \<Rightarrow> buffer" where
  "subarray buf start end' = take (end' - start) (drop start buf)"

section \<open>JavaScript values\<close>

text \<open>
  The values \<open>JSON.parse\<close> returns, and \<open>undefined\<close> for a property that is absent. A
  number is an IEEE 754 double, given by its 64 bits. An object is given by the list of its
  own properties.
\<close>

datatype jsval =
    Undefined
  | Null
  | Bool bool
  | Num "64 word"
  | Str jsstring
  | Arr "jsval list"
  | Obj "(jsstring \<times> jsval) list"

text \<open>
  What \<open>!v\<close> and \<open>v || w\<close> test: \<open>undefined\<close>, \<open>null\<close>, \<open>false\<close>, both zeros, NaN and the
  empty string are falsy, everything else is truthy.
\<close>

fun truthy :: "jsval \<Rightarrow> bool" where
  "truthy Undefined = False"
| "truthy Null = False"
| "truthy (Bool b) = b"
| "truthy (Num w) =
     (let m = w AND 0x7FFFFFFFFFFFFFFF in m \<noteq> 0 \<and> m \<le> 0x7FF0000000000000)"
| "truthy (Str s) = (s \<noteq> [])"
| "truthy (Arr vs) = True"
| "truthy (Obj ps) = True"

definition js_or :: "jsval \<Rightarrow> jsval \<Rightarrow> jsval" where
  "js_or v w = (if truthy v then v else w)"

text \<open>
  Reading one of the properties \<open>audioBase64\<close>, \<open>referenceText\<close> or \<open>locale\<close> in the
  destructuring of the body: an object gives its own property, any other value that
  reaches the destructuring (a number, a boolean, a string, an array) has none of the three.
\<close>

fun get_property :: "jsval \<Rightarrow> jsstring \<Rightarrow> jsval" where
  "get_property (Obj ps) k = (case map_of ps k of None \<Rightarrow> Undefined | Some v \<Rightarrow> v)"
| "get_property v k = Undefined"

text \<open>
  \<open>process.env\<close>: a variable is a string, or absent. \<open>a || b\<close> on two variables takes
  the first unless it is absent or empty.
\<close>

type_synonym environment = "string \<Rightarrow> jsstring option"

definition env_truthy :: "jsstring option \<Rightarrow> bool" where
  "env_truthy v \<longleftrightarrow> v \<noteq> None \<and> v \<noteq> Some []"

definition env_or :: "jsstring option \<Rightarrow> jsstring option \<Rightarrow> jsstring option" where
  "env_or v w = (if env_truthy v then v else w)"

text \<open>The text of a template literal for a number: its decimal digits.\<close>

fun decimal :: "nat \<Rightarrow> string" where
  "decimal n =
     (if n < 10 then [''0123456789'' ! n]
      else decimal (n div 10) @ [''0123456789'' ! (n mod 10)])"

declare decimal.simps [simp del]

section \<open>readJsonBody\<close>

text \<open>
  \<open>buf.toString("utf16le")\<close>: each pair of bytes is one code unit, low byte first; a last
  byte without a partner is left out.
\<close>

fun toString_utf16le :: "buffer \<Rightarrow> jsstring" where
  "toString_utf16le (lo # hi # rest) =
     (ucast lo OR push_bit 8 (ucast hi)) # toString_utf16le rest"
| "toString_utf16le rest = []"

text \<open>
  What the handlers take from the runtime and from the services they call, as parameters:
  the UTF-8 decoding of a buffer; \<open>JSON.parse\<close> (\<open>None\<close> when it throws);
  \<open>Buffer.from(s, "base64")\<close> for a string \<open>s\<close> that has a code unit above 255 (for the
  other strings the decoder is modelled below);
  \<open>Buffer.from(v, "base64")\<close> for a value that is not a string; the speech recognition
  (everything that lines 164 to 211 of assess.js do with the Speech SDK: it throws or
  rejects, or gives the text, the scores and the raw JSON property of the result);
  and the token request of token.js (a response with its status code and body, or an
  error with its message).
\<close>

record sdk_result =
  result_text :: jsval
  pa_accuracyScore :: jsval
  pa_pronunciationScore :: jsval
  pa_completenessScore :: jsval
  pa_fluencyScore :: jsval
  pa_prosodyScore :: jsval
  json_result :: "thrown + jsstring option"

datatype upstream = Responded nat jsstring | Failed jsstring

record runtime =
  toString_utf8 :: "buffer \<Rightarrow> jsstring"
  JSON_parse :: "jsstring \<Rightarrow> jsval option"
  from_base64_wide :: "jsstring \<Rightarrow> buffer"
  from_other :: "jsval \<Rightarrow> thrown + buffer"
  recognizeOnce :: "jsstring \<Rightarrow> jsstring \<Rightarrow> jsval \<Rightarrow> jsval \<Rightarrow> nat \<Rightarrow> buffer \<Rightarrow> thrown + sdk_result"
  issueToken :: "jsstring \<Rightarrow> jsstring \<Rightarrow> upstream"

definition readJsonBody :: "runtime \<Rightarrow> buffer \<Rightarrow> thrown + jsval" where
  "readJsonBody rt buf =
     (case JSON_parse rt (toString_utf8 rt buf) of
        Some v \<Rightarrow> Inr v
      | None \<Rightarrow>
         (case JSON_parse rt (toString_utf16le buf) of
            Some v \<Rightarrow> Inr v
          | None \<Rightarrow>
              Inl (Error (js ''Invalid JSON body (could not decode as UTF-8 or UTF-16LE).''))))"

section \<open>The assess handler\<close>

record assess_body =
  res_locale :: jsval
  res_referenceText :: jsval
  recognizedText :: jsval
  accuracyScore :: jsval
  pronunciationScore :: jsval
  completenessScore :: jsval
  fluencyScore :: jsval
  prosodyScore :: jsval
  audioInfo :: wav_header
  raw :: jsval

datatype json_body =
    ErrorBody jsstring
  | AssessBody assess_body
  | TokenBody jsstring jsstring

record response =
  status :: nat
  headers :: "(jsstring \<times> jsstring) list"
  jsonBody :: json_body

text \<open>\<open>err.message || String(err)\<close> for what was caught.\<close>

fun error_text :: "thrown \<Rightarrow> jsstring" where
  "error_text (Error m) = (if m \<noteq> [] then m else js ''Error'')"
| "error_text (RangeError m) = (if m \<noteq> [] then m else js ''RangeError'')"
| "error_text (TypeError m) = (if m \<noteq> [] then m else js ''TypeError'')"
| "error_text (NotAnError s) = s"

text \<open>The \<open>catch\<close> of the handler: every throw inside the \<open>try\<close> ends here.\<close>

definition caught :: "thrown \<Rightarrow> response" where
  "caught err = \<lparr>status = 500, headers = [], jsonBody = ErrorBody (error_text err)\<rparr>"

definition error_response :: "nat \<Rightarrow> jsstring \<Rightarrow> response" where
  "error_response code msg = \<lparr>status = code, headers = [], jsonBody = ErrorBody msg\<rparr>"

text \<open>\<open>a ?? b\<close>: \<open>b\<close> when \<open>a\<close> is \<open>null\<close> or \<open>undefined\<close>.\<close>

definition nullish_or :: "jsval \<Rightarrow> jsval \<Rightarrow> jsval" where
  "nullish_or v w = (if v = Undefined \<or> v = Null then w else v)"

text \<open>
  The base64 decoder of the runtime, which \<open>Buffer.from(s, "base64")\<close> runs on a string.
  It has no error path. It reads the characters in order: a character of the base64
  alphabet has a value of six bits (\<open>+\<close> and \<open>-\<close> are both 62, \<open>/\<close> and \<open>_\<close> both 63), any
  other character is passed over, and the first \<open>=\<close> ends the text. Four values give
  three bytes; of a rest of three values come two bytes, of two values one byte, of a
  single value none.
\<close>

definition unbase64 :: "16 word \<Rightarrow> nat option" where
  "unbase64 c =
     (if 0x41 \<le> c \<and> c \<le> 0x5A then Some (unat c - 0x41)
      else if 0x61 \<le> c \<and> c \<le> 0x7A then Some (unat c - 0x61 + 26)
      else if 0x30 \<le> c \<and> c \<le> 0x39 then Some (unat c - 0x30 + 52)
      else if c = 0x2B \<or> c = 0x2D then Some 62
      else if c = 0x2F \<or> c = 0x5F then Some 63
      else None)"

fun base64_values :: "jsstring \<Rightarrow> nat list" where
  "base64_values [] = []"
| "base64_values (c # cs) =
     (case unbase64 c of
        Some v \<Rightarrow> v # base64_values cs
      | None \<Rightarrow> (if c = 0x3D then [] else base64_values cs))"

fun base64_bytes :: "nat list \<Rightarrow> buffer" where
  "base64_bytes (a # b # c # d # vs) =
     [of_nat (a * 4 + b div 16), of_nat (b mod 16 * 16 + c div 4), of_nat (c mod 4 * 64 + d)]
     @ base64_bytes vs"
| "base64_bytes [a, b, c] = [of_nat (a * 4 + b div 16), of_nat (b mod 16 * 16 + c div 4)]"
| "base64_bytes [a, b] = [of_nat (a * 4 + b div 16)]"
| "base64_bytes vs = []"

definition base64_decode :: "jsstring \<Rightarrow> buffer" where
  "base64_decode s = base64_bytes (base64_values s)"

text \<open>
  \<open>Buffer.from(audioBase64, "base64")\<close>: a string is decoded, and the decoding does not
  throw; any other value goes the runtime's way for that value. The decoder above is the
  runtime's for a string whose code units are all below 256; what the runtime makes of a
  code unit above 255 is not modelled, so for such a string the buffer is the parameter's.
\<close>

definition one_byte :: "jsstring \<Rightarrow> bool" where
  "one_byte s = list_all (\<lambda>c. c < 0x100) s"

definition Buffer_from_base64 :: "runtime \<Rightarrow> jsval \<Rightarrow> thrown + buffer" where
  "Buffer_from_base64 rt v =
     (case v of
        Str s \<Rightarrow> Inr (if one_byte s then base64_decode s else from_base64_wide rt s)
      | _ \<Rightarrow> from_other rt v)"

text \<open>The optional raw JSON of the result: \<open>null\<close> when absent, empty or not parseable.\<close>

definition rawJson :: "runtime \<Rightarrow> sdk_result \<Rightarrow> jsval" where
  "rawJson rt res =
     (case json_result res of
        Inl e \<Rightarrow> Null
      | Inr None \<Rightarrow> Null
      | Inr (Some s) \<Rightarrow>
         (if s = [] then Null
          else (case JSON_parse rt s of None \<Rightarrow> Null | Some v \<Rightarrow> v)))"

text \<open>
  The two configuration reads of the handler. The test \<open>!speechKey || !speechRegion\<close> is
  the case analysis in \<open>assess\<close>: absent or empty is "missing".
\<close>

definition speechKey :: "environment \<Rightarrow> jsstring option" where
  "speechKey env = env_or (env ''SPEECH_KEY'') (env ''AZURE_SPEECH_KEY'')"

definition speechRegion :: "environment \<Rightarrow> jsstring option" where
  "speechRegion env = env_or (env ''SPEECH_REGION'') (env ''AZURE_SPEECH_REGION'')"

text \<open>
  Lines 132 to 232 of assess.js, what the handler does with a parsed header: the checks
  for PCM, mono and 16 bits, the slice of the samples, the recognition, the response.
\<close>

definition assess_audio ::
  "runtime \<Rightarrow> jsstring \<Rightarrow> jsstring \<Rightarrow> jsval \<Rightarrow> jsval \<Rightarrow> buffer \<Rightarrow> wav_header \<Rightarrow> response" where
  "assess_audio rt key region locale' referenceText wavBuffer header =
     (if audioFormat header \<noteq> 1
      then error_response 400
             (js (''audioFormat='' @ decimal (audioFormat header) @ ''. Expected PCM (1).''))
      else if numChannels header \<noteq> 1
      then error_response 400
             (js (''channels='' @ decimal (numChannels header) @ ''. Expected mono (1).''))
      else if bitsPerSample header \<noteq> 16
      then error_response 400
             (js (''bitsPerSample='' @ decimal (bitsPerSample header) @ ''. Expected 16.''))
      else
       (let pcm = subarray wavBuffer (dataOffset header)
                    (dataOffset header + dataSize header)
        in
        case recognizeOnce rt key region locale' referenceText (sampleRate header) pcm of
          Inl err \<Rightarrow> caught err
        | Inr res \<Rightarrow>
            \<lparr>status = 200,
             headers = [(js ''Content-Type'', js ''application/json; charset=utf-8'')],
             jsonBody = AssessBody
               \<lparr>res_locale = locale',
                res_referenceText = referenceText,
                recognizedText = js_or (result_text res) (Str []),
                accuracyScore = nullish_or (pa_accuracyScore res) (Num 0),
                pronunciationScore = nullish_or (pa_pronunciationScore res) (Num 0),
                completenessScore = nullish_or (pa_completenessScore res) (Num 0),
                fluencyScore = nullish_or (pa_fluencyScore res) (Num 0),
                prosodyScore = nullish_or (pa_prosodyScore res) Null,
                audioInfo = header,
                raw = rawJson rt res\<rparr>\<rparr>))"

definition assess :: "runtime \<Rightarrow> environment \<Rightarrow> buffer \<Rightarrow> response" where
  "assess rt env request =
     (case readJsonBody rt request of
        Inl err \<Rightarrow> caught err
      | Inr body \<Rightarrow>
         (let src = js_or body (Obj []);
              audioBase64 = get_property src (js ''audioBase64'');
              referenceText = get_property src (js ''referenceText'');
              locale' = get_property src (js ''locale'')
          in
          if \<not> truthy audioBase64
          then error_response 400 (js ''audioBase64 (string) is required.'')
          else if \<not> truthy referenceText
          then error_response 400 (js ''referenceText (string) is required.'')
          else if \<not> truthy locale'
          then error_response 400 (js ''locale (string) is required.'')
          else
           (case (speechKey env, speechRegion env) of
              (Some key, Some region) \<Rightarrow>
               (if key = [] \<or> region = []
                then error_response 500
                       (js ''Missing SPEECH_KEY or SPEECH_REGION in environment.'')
                else
                 (case Buffer_from_base64 rt audioBase64 of
                    Inl err \<Rightarrow> caught err
                  | Inr wavBuffer \<Rightarrow>
                     (case parseWav wavBuffer of
                        Inl err \<Rightarrow> caught err
                      | Inr header \<Rightarrow>
                          assess_audio rt key region locale' referenceText wavBuffer header)))
            | _ \<Rightarrow> error_response 500
                     (js ''Missing SPEECH_KEY or SPEECH_REGION in environment.''))))"

section \<open>The token handler\<close>

text \<open>\<open>process.env.SPEECH_REGION || "canadacentral"\<close>.\<close>

definition token_region :: "environment \<Rightarrow> jsstring" where
  "token_region env =
     (case env ''SPEECH_REGION'' of
        Some r \<Rightarrow> (if r \<noteq> [] then r else js ''canadacentral'')
      | None \<Rightarrow> js ''canadacentral'')"

definition token :: "runtime \<Rightarrow> environment \<Rightarrow> response" where
  "token rt env =
     (let key = env ''SPEECH_KEY'';
          region = token_region env
      in
      case key of
        Some k \<Rightarrow>
         (if k = []
          then error_response 500 (js ''Missing SPEECH_KEY in local.settings.json'')
          else
           (case issueToken rt (region @ js ''.api.cognitive.microsoft.com'') k of
              Responded statusCode data' \<Rightarrow>
               (if 200 \<le> statusCode \<and> statusCode < 300
                then \<lparr>status = 200, headers = [], jsonBody = TokenBody data' region\<rparr>
                else error_response 500
                       (js ''Token request failed: '' @ js (decimal statusCode)
                        @ js '' '' @ data'))
            | Failed msg \<Rightarrow> error_response 500 msg))
      | None \<Rightarrow> error_response 500 (js ''Missing SPEECH_KEY in local.settings.json''))"

section \<open>The checks before the audio is decoded\<close>

text \<open>
  The first part of the handler, read by itself: the three fields of a request that passes
  the checks of lines 94 to 114, and the key and region of an environment that passes the
  check of line 120.
\<close>

definition request_fields :: "runtime \<Rightarrow> buffer \<Rightarrow> (jsval \<times> jsval \<times> jsval) option" where
  "request_fields rt request =
     (case readJsonBody rt request of
        Inl err \<Rightarrow> None
      | Inr body \<Rightarrow>
         (let src = js_or body (Obj []);
              audioBase64 = get_property src (js ''audioBase64'');
              referenceText = get_property src (js ''referenceText'');
              locale' = get_property src (js ''locale'')
          in if truthy audioBase64 \<and> truthy referenceText \<and> truthy locale'
             then Some (audioBase64, referenceText, locale') else None))"

definition configured :: "environment \<Rightarrow> (jsstring \<times> jsstring) option" where
  "configured env =
     (case (speechKey env, speechRegion env) of
        (Some key, Some region) \<Rightarrow>
          (if key = [] \<or> region = [] then None else Some (key, region))
      | _ \<Rightarrow> None)"

section \<open>Containers as the tests of the parser build them\<close>

text \<open>
  A chunk is a four-byte tag and a payload. In the file it is the tag, the payload length
  as four little-endian bytes, the payload, and a zero byte of padding when the length is
  odd. A container is \<open>RIFF\<close>, the size of what follows, \<open>WAVE\<close>, and the chunks.
\<close>

datatype chunk = Chunk (tag: buffer) (payload: buffer)

definition bytes :: "string \<Rightarrow> buffer" where
  "bytes s = map of_char s"

definition le32 :: "nat \<Rightarrow> buffer" where
  "le32 n = [of_nat n, of_nat (n div 256), of_nat (n div 65536), of_nat (n div 16777216)]"

definition encode_chunk :: "chunk \<Rightarrow> buffer" where
  "encode_chunk c =
     tag c @ le32 (length (payload c)) @ payload c
     @ (if odd (length (payload c)) then [0] else [])"

definition encode_chunks :: "chunk list \<Rightarrow> buffer" where
  "encode_chunks cs = concat (map encode_chunk cs)"

definition wav_container :: "chunk list \<Rightarrow> buffer" where
  "wav_container cs =
     bytes ''RIFF'' @ le32 (4 + length (encode_chunks cs)) @ bytes ''WAVE'' @ encode_chunks cs"

text \<open>
  A well-formed chunk: a tag of four ASCII characters and a payload whose length fits the
  32-bit length field.
\<close>

definition wellformed_chunk :: "chunk \<Rightarrow> bool" where
  "wellformed_chunk c \<longleftrightarrow>
     length (tag c) = 4 \<and> list_all (\<lambda>b. b < 0x80) (tag c) \<and> length (payload c) < 2 ^ 32"

definition is_fmt :: "chunk \<Rightarrow> bool" where
  "is_fmt c \<longleftrightarrow> tag c = bytes ''fmt ''"

definition is_data :: "chunk \<Rightarrow> bool" where
  "is_data c \<longleftrightarrow> tag c = bytes ''data''"

text \<open>The UTF-16LE bytes of a string, as a client that sends UTF-16 writes them.\<close>

definition utf16le_bytes :: "jsstring \<Rightarrow> buffer" where
  "utf16le_bytes s = concat (map (\<lambda>w. [ucast w, ucast (drop_bit 8 w)]) s)"

text \<open>
  A chunk that is neither the \<open>fmt\<close> chunk nor the \<open>data\<close> chunk: metadata, padding.
\<close>

definition other_chunk :: "chunk \<Rightarrow> bool" where
  "other_chunk c \<longleftrightarrow> wellformed_chunk c \<and> \<not> is_fmt c \<and> \<not> is_data c"

text \<open>
  The window of the data chunk lies inside the buffer: the invariant of the chunk loop
  behind the bounds of the extracted samples.
\<close>

definition data_within :: "buffer \<Rightarrow> scan_state \<Rightarrow> bool" where
  "data_within buf st = (case data st of None \<Rightarrow> True | Some (dOff, dSize) \<Rightarrow> dOff + dSize \<le> length buf)"

text \<open>
  What the chunk loop has in its variables after passing over a chunk of a container built
  as above: the cursor behind the chunk and its padding, the fields of a \<open>fmt\<close> payload,
  the window of a \<open>data\<close> payload. A chunk can be passed over when it is well-formed and,
  if it is a \<open>fmt\<close> chunk, has the 16 bytes the parser asks for.
\<close>

definition fmt_fields :: "buffer \<Rightarrow> fmt_chunk" where
  "fmt_fields p = \<lparr>audioFormat = u16_at p 0, numChannels = u16_at p 2,
                   sampleRate = u32_at p 4, bitsPerSample = u16_at p 14\<rparr>"

definition after_chunk :: "scan_state \<Rightarrow> chunk \<Rightarrow> scan_state" where
  "after_chunk st c =
     \<lparr>offset = offset st + length (encode_chunk c),
      fmt = (if is_fmt c then Some (fmt_fields (payload c)) else fmt st),
      data = (if is_data c then Some (offset st + 8, length (payload c)) else data st)\<rparr>"

definition scannable :: "chunk \<Rightarrow> bool" where
  "scannable c \<longleftrightarrow> wellformed_chunk c \<and> (if is_fmt c then 16 \<le> length (payload c) else True)"

section \<open>An instance of the runtime\<close>

text \<open>
  For the instances below: a request body with the three fields, whose audio is a given
  base64 text; a WAV file of four sample bytes and its base64 text; and a runtime that
  answers as Node.js does on these inputs (it parses the example bodies and \<open>{}\<close>,
  recognises one result and issues one token). The environment
  has the key under its second name and the region under its first.
\<close>

definition quoted :: "string \<Rightarrow> string" where
  "quoted s = CHR 0x22 # s @ [CHR 0x22]"

definition example_json :: "string \<Rightarrow> string" where
  "example_json audio =
     ''{'' @ quoted ''audioBase64'' @ '':'' @ quoted audio @ '',''
     @ quoted ''referenceText'' @ '':'' @ quoted ''hi'' @ '',''
     @ quoted ''locale'' @ '':'' @ quoted ''en-US'' @ ''}''"

definition example_object :: "string \<Rightarrow> jsval" where
  "example_object audio =
     Obj [(js ''audioBase64'', Str (js audio)),
          (js ''referenceText'', Str (js ''hi'')),
          (js ''locale'', Str (js ''en-US''))]"

definition example_wav :: buffer where
  "example_wav =
     wav_container
       [Chunk (bytes ''fmt '') [1, 0, 1, 0, 0x80, 0x3E, 0, 0, 0, 0x7D, 0, 0, 2, 0, 16, 0],
        Chunk (bytes ''data'') [1, 2, 3, 4]]"

definition example_audio :: string where
  "example_audio = ''UklGRigAAABXQVZFZm10IBAAAAABAAEAgD4AAAB9AAACABAAZGF0YQQAAAABAgME''"

definition example_result :: sdk_result where
  "example_result =
     \<lparr>result_text = Str (js ''hi''),
      pa_accuracyScore = Num 0x4059000000000000,
      pa_pronunciationScore = Num 0x4059000000000000,
      pa_completenessScore = Num 0x4059000000000000,
      pa_fluencyScore = Num 0x4059000000000000,
      pa_prosodyScore = Undefined,
      json_result = Inr None\<rparr>"

definition example_runtime :: runtime where
  "example_runtime =
     \<lparr>toString_utf8 = map ucast,
      JSON_parse = (\<lambda>s.
        if s = js (example_json ''QUJD'') then Some (example_object ''QUJD'')
        else if s = js (example_json []) then Some (example_object [])
        else if s = js (example_json ''QU JD!'') then Some (example_object ''QU JD!'')
        else if s = js (example_json example_audio) then Some (example_object example_audio)
        else if s = js ''{}'' then Some (Obj [])
        else None),
      from_base64_wide = (\<lambda>s. []),
      from_other = (\<lambda>v. Inl (TypeError (js ''ERR_INVALID_ARG_TYPE''))),
      recognizeOnce = (\<lambda>key region locale' referenceText rate pcm. Inr example_result),
      issueToken = (\<lambda>host key. Responded 200 (js ''token''))\<rparr>"

definition example_env :: environment where
  "example_env =
     (\<lambda>name. if name = ''AZURE_SPEECH_KEY'' then Some (js ''key'')
             else if name = ''SPEECH_REGION'' then Some (js ''eastus'')
             else None)"

text \<open>The errors that \<open>parseWav\<close> throws by itself.\<close>

definition parse_errors :: "thrown set" where
  "parse_errors = {Error (js ''Invalid WAV buffer.''), Error (js ''Invalid WAV: expected RIFF/WAVE.''),
     Error (js ''Invalid WAV fmt chunk.''), Error (js ''WAV missing fmt chunk.''),
     Error (js ''WAV missing data chunk.'')}"

section \<open>What the parser can throw\<close>

lemma js_tags:
  "js ''RIFF'' = [0x52, 0x49, 0x46, 0x46]" "js ''WAVE'' = [0x57, 0x41, 0x56, 0x45]"
  "js ''fmt '' = [0x66, 0x6D, 0x74, 0x20]" "js ''data'' = [0x64, 0x61, 0x74, 0x61]"
  by (simp_all add: js_def)

lemma bytes_tags:
  "bytes ''RIFF'' = [0x52, 0x49, 0x46, 0x46]" "bytes ''WAVE'' = [0x57, 0x41, 0x56, 0x45]"
  "bytes ''fmt '' = [0x66, 0x6D, 0x74, 0x20]" "bytes ''data'' = [0x64, 0x61, 0x74, 0x61]"
  by (simp_all add: bytes_def)

lemma readUInt16LE_within: "off + 2 \<le> length buf \<Longrightarrow> readUInt16LE buf off = Inr (u16_at buf off)"
  by (simp add: readUInt16LE_def u16_at_def)

lemma readUInt32LE_within: "off + 4 \<le> length buf \<Longrightarrow> readUInt32LE buf off = Inr (u32_at buf off)"
  by (simp add: readUInt32LE_def u32_at_def)

lemma read_fmt_within:
  assumes "payloadOffset + n \<le> length buf"
  shows "read_fmt buf payloadOffset n =
     (if n < 16 then Inl (Error (js ''Invalid WAV fmt chunk.''))
      else Inr \<lparr>audioFormat = u16_at buf payloadOffset,
               numChannels = u16_at buf (payloadOffset + 2),
               sampleRate = u32_at buf (payloadOffset + 4),
               bitsPerSample = u16_at buf (payloadOffset + 14)\<rparr>)"
proof (cases "n < 16")
  case True
  then show ?thesis by (simp add: read_fmt_def)
next
  case False
  with assms have "payloadOffset + 0 + 2 \<le> length buf" "payloadOffset + 2 + 2 \<le> length buf"
    "payloadOffset + 4 + 4 \<le> length buf" "payloadOffset + 14 + 2 \<le> length buf"
    by simp_all
  then have "readUInt16LE buf (payloadOffset + 0) = Inr (u16_at buf (payloadOffset + 0))"
    "readUInt16LE buf (payloadOffset + 2) = Inr (u16_at buf (payloadOffset + 2))"
    "readUInt32LE buf (payloadOffset + 4) = Inr (u32_at buf (payloadOffset + 4))"
    "readUInt16LE buf (payloadOffset + 14) = Inr (u16_at buf (payloadOffset + 14))"
    by (simp_all only: readUInt16LE_within readUInt32LE_within)
  with False show ?thesis
    unfolding read_fmt_def by simp
qed

lemma loop_body_throws:
  assumes "offset st + 8 \<le> length buf" and "loop_body buf st = Throw e"
  shows "e = Error (js ''Invalid WAV fmt chunk.'')"
proof -
  obtain n where n: "readUInt32LE buf (offset st + 4) = Inr n"
    using assms(1) by (simp add: readUInt32LE_def)
  show ?thesis
  proof (cases "offset st + 8 + n \<le> length buf")
    case True
    then show ?thesis
      using assms(2) n read_fmt_within [of "offset st + 8" n buf]
      by (auto simp: loop_body_def Let_def split: if_splits)
  next
    case False
    then show ?thesis using assms(2) n by (simp add: loop_body_def Let_def)
  qed
qed

lemma scan_throws:
  "scan buf st = Inl e \<Longrightarrow> e = Error (js ''Invalid WAV fmt chunk.'')"
proof (induction buf st rule: scan.induct)
  case (1 buf st)
  show ?case
  proof (cases "offset st + 8 \<le> length buf")
    case False
    with "1.prems" show ?thesis by (simp add: scan.simps)
  next
    case True
    show ?thesis
    proof (cases "loop_body buf st")
      case Break
      with True "1.prems" show ?thesis by (simp add: scan.simps)
    next
      case (Throw e')
      with True "1.prems" have "e' = e" by (simp add: scan.simps)
      with True Throw show ?thesis using loop_body_throws by blast
    next
      case (Continue st')
      with True "1.prems" have "scan buf st' = Inl e" by (simp add: scan.simps)
      with True Continue show ?thesis using "1.IH" by blast
    qed
  qed
qed

lemma parseWav_throws:
  assumes "parseWav buf = Inl e"
  shows "e \<in> parse_errors"
  using assms scan_throws [of buf "\<lparr>offset = 12, fmt = None, data = None\<rparr>"]
  by (auto simp: parseWav_def parse_errors_def Let_def split: if_splits sum.splits option.splits prod.splits)

section \<open>The data window stays inside the buffer\<close>

lemma loop_body_data_within:
  assumes "loop_body buf st = Continue st'" and "data_within buf st"
  shows "data_within buf st'"
  using assms
  by (auto simp: loop_body_def Let_def data_within_def split: sum.splits if_splits)

lemma scan_data_within:
  "scan buf st = Inr st' \<Longrightarrow> data_within buf st \<Longrightarrow> data_within buf st'"
proof (induction buf st rule: scan.induct)
  case (1 buf st)
  show ?case
  proof (cases "offset st + 8 \<le> length buf")
    case False
    with "1.prems" show ?thesis by (simp add: scan.simps)
  next
    case True
    show ?thesis
    proof (cases "loop_body buf st")
      case Break
      with True "1.prems" show ?thesis by (simp add: scan.simps)
    next
      case (Throw e)
      with True "1.prems" show ?thesis by (simp add: scan.simps)
    next
      case (Continue st1)
      with True "1.prems" have "scan buf st1 = Inr st'" by (simp add: scan.simps)
      moreover have "data_within buf st1"
        using Continue "1.prems"(2) by (rule loop_body_data_within)
      ultimately show ?thesis using "1.IH" True Continue by blast
    qed
  qed
qed

lemma parseWav_data_within:
  assumes "parseWav buf = Inr h"
  shows "dataOffset h + dataSize h \<le> length buf"
proof -
  let ?init = "\<lparr>offset = 12, fmt = None, data = None\<rparr>"
  from assms obtain st f where st: "scan buf ?init = Inr st" "fmt st = Some f"
    "data st = Some (dataOffset h, dataSize h)"
    by (auto simp: parseWav_def Let_def split: if_splits sum.splits option.splits prod.splits)
  have "data_within buf ?init" by (simp add: data_within_def)
  with st(1) have "data_within buf st" by (rule scan_data_within)
  with st(3) show ?thesis by (simp add: data_within_def)
qed

lemma scan_break:
  assumes "offset st + 8 \<le> length buf" and "readUInt32LE buf (offset st + 4) = Inr n"
    and "length buf < offset st + 8 + n"
  shows "scan buf st = Inr st"
  using assms by (simp add: scan.simps loop_body_def Let_def)

lemma scan_end: "length buf < offset st + 8 \<Longrightarrow> scan buf st = Inr st"
  by (simp add: scan.simps)

lemma ucast_byte_inj: "(ucast (a :: byte) :: 16 word) = ucast b \<longleftrightarrow> a = b"
proof
  assume "(ucast a :: 16 word) = ucast b"
  then have "(ucast (ucast a :: 16 word) :: byte) = ucast (ucast b :: 16 word)" by simp
  then show "a = b" by (simp add: ucast_up_ucast_id is_up)
qed simp

lemma map_ucast_byte_inj: "(map ucast (xs :: byte list) :: 16 word list) = map ucast ys \<longleftrightarrow> xs = ys"
  by (rule inj_map_eq_map) (simp add: inj_on_def ucast_byte_inj)

lemma js_tags_bytes:
  "js ''fmt '' = map ucast (bytes ''fmt '')" "js ''data'' = map ucast (bytes ''data'')"
  by (simp_all add: js_tags bytes_tags)

lemma ascii_byte: "(b :: byte) < 0x80 \<Longrightarrow> b AND 0x7F = b"
  using less_mask_eq [of b 7] by (simp add: mask_eq_exp_minus_1)

lemma toString_ascii_tag:
  assumes "length t = 4" and "list_all (\<lambda>b. b < 0x80) t"
  shows "toString_ascii (pre @ t @ xs) (length pre) (length pre + 4) = map ucast t"
  using assms by (simp add: toString_ascii_def list_all_iff ascii_byte)

lemma le32_value:
  assumes "n < 2 ^ 32"
  shows "n mod 256 + 256 * (n div 256 mod 256)
      + 65536 * (n div 65536 mod 256) + 16777216 * (n div 16777216 mod 256) = (n::nat)"
proof -
  define a where "a = n div 256"
  define b where "b = a div 256"
  define c where "c = b div 256"
  have b: "b = n div 65536" by (simp add: b_def a_def div_mult2_eq)
  have c: "c = n div 16777216" by (simp add: c_def b div_mult2_eq)
  have "c < 256" using assms unfolding c by simp
  then have c4: "c mod 256 = c" by simp
  have n: "n = n mod 256 + 256 * a" unfolding a_def by simp
  have a: "a = a mod 256 + 256 * b" unfolding b_def by simp
  have b': "b = b mod 256 + 256 * c" unfolding c_def by simp
  define x0 where "x0 = n mod 256"
  define x1 where "x1 = a mod 256"
  define x2 where "x2 = b mod 256"
  have "x0 + 256 * x1 + 65536 * x2 + 16777216 * c = n"
    using n a b' unfolding x0_def [symmetric] x1_def [symmetric] x2_def [symmetric]
    by linarith
  then show ?thesis
    unfolding x0_def x1_def x2_def a_def [symmetric] b [symmetric] c [symmetric] c4 .
qed

lemma u32_at_le32:
  assumes "n < 2 ^ 32"
  shows "u32_at (le32 n @ xs) 0 = n"
proof -
  have "u32_at (le32 n @ xs) 0 = n mod 256 + 256 * (n div 256 mod 256)
      + 65536 * (n div 65536 mod 256) + 16777216 * (n div 16777216 mod 256)"
    by (simp add: u32_at_def le32_def unat_of_nat)
  with assms show ?thesis by (simp only: le32_value)
qed

section \<open>Scanning a container chunk by chunk\<close>

lemma length_le32 [simp]: "length (le32 n) = 4"
  by (simp add: le32_def)

lemma length_encode_chunk:
  "length (encode_chunk c) = length (tag c) + 4 + length (payload c) + length (payload c) mod 2"
  by (simp add: encode_chunk_def) presburger

lemma u16_at_append: "i + 2 \<le> length p \<Longrightarrow> u16_at (xs @ p @ ys) (length xs + i) = u16_at p i"
  by (simp add: u16_at_def nth_append)

lemma u32_at_append: "i + 4 \<le> length p \<Longrightarrow> u32_at (xs @ p @ ys) (length xs + i) = u32_at p i"
  by (simp add: u32_at_def nth_append)

lemma tag_is_fmt:
  "map ucast (tag c) = js ''fmt '' \<longleftrightarrow> is_fmt c"
  by (simp only: js_tags_bytes map_ucast_byte_inj is_fmt_def)

lemma tag_is_data:
  "map ucast (tag c) = js ''data'' \<longleftrightarrow> is_data c"
  by (simp only: js_tags_bytes map_ucast_byte_inj is_data_def)

lemma loop_body_chunk:
  assumes wf: "wellformed_chunk c" and off: "offset st = length pre"
  shows "loop_body (pre @ encode_chunk c @ rest) st =
     (if is_fmt c \<and> length (payload c) < 16 then Throw (Error (js ''Invalid WAV fmt chunk.''))
      else Continue (after_chunk st c))"
proof -
  define t where "t = tag c"
  define p where "p = payload c"
  define n where "n = length p"
  define pad where "pad = (if odd n then [0 :: byte] else [])"
  define buf where "buf = pre @ encode_chunk c @ rest"
  have t: "length t = 4" "list_all (\<lambda>b. b < 0x80) t" and n: "n < 2 ^ 32"
    using wf by (simp_all add: wellformed_chunk_def t_def p_def n_def)
  have enc: "encode_chunk c = t @ le32 n @ p @ pad"
    by (simp add: encode_chunk_def t_def p_def n_def pad_def)
  have len: "length buf = length pre + 8 + n + n mod 2 + length rest"
    using t(1) by (simp add: buf_def enc n_def pad_def) presburger
  have buf1: "buf = pre @ t @ (le32 n @ p @ pad @ rest)"
    by (simp add: buf_def enc)
  have buf2: "buf = (pre @ t) @ (le32 n @ p @ pad) @ rest"
    by (simp add: buf_def enc)
  have buf3: "buf = (pre @ t @ le32 n) @ p @ (pad @ rest)"
    by (simp add: buf_def enc)
  have id': "toString_ascii buf (offset st) (offset st + 4) = map ucast t"
    unfolding off buf1 using t by (rule toString_ascii_tag)
  have "u32_at buf (length (pre @ t) + 0) = u32_at (le32 n @ p @ pad) 0"
    unfolding buf2 by (rule u32_at_append) simp
  then have "u32_at buf (length pre + 4) = n"
    using n t(1) by (simp add: u32_at_le32)
  moreover have "offset st + 4 + 4 \<le> length buf" using len off by simp
  ultimately have size': "readUInt32LE buf (offset st + 4) = Inr n"
    using readUInt32LE_within [of "offset st + 4" buf] off by simp
  have fits: "offset st + 8 + n \<le> length buf" using len off by simp
  have at16: "u16_at buf (length pre + 8 + i) = u16_at p i" if "i + 2 \<le> n" for i
    using u16_at_append [of i p "pre @ t @ le32 n" "pad @ rest"] that t(1)
    by (simp add: buf3 n_def)
  have at32: "u32_at buf (length pre + 8 + i) = u32_at p i" if "i + 4 \<le> n" for i
    using u32_at_append [of i p "pre @ t @ le32 n" "pad @ rest"] that t(1)
    by (simp add: buf3 n_def)
  have rd: "read_fmt buf (offset st + 8) n = Inr (fmt_fields p)" if "16 \<le> n"
    using that read_fmt_within [OF fits] at16 [of 0] at16 [of 2] at32 [of 4] at16 [of 14] off
    by (simp add: fmt_fields_def)
  have rd': "read_fmt buf (offset st + 8) n = Inl (Error (js ''Invalid WAV fmt chunk.''))" if "n < 16"
    using that read_fmt_within [OF fits] by simp
  have next_off: "offset st + 8 + n + n mod 2 = offset st + length (encode_chunk c)"
    using t(1) by (simp add: length_encode_chunk t_def [symmetric] p_def [symmetric] n_def [symmetric])
  show ?thesis
  proof (cases "is_fmt c")
    case True
    then have nd: "\<not> is_data c" by (auto simp: is_fmt_def is_data_def bytes_tags)
    show ?thesis
    proof (cases "n < 16")
      case True
      with \<open>is_fmt c\<close> show ?thesis
        unfolding buf_def [symmetric]
        using size' fits id' rd' [OF True]
        by (simp add: loop_body_def Let_def tag_is_fmt t_def n_def p_def)
    next
      case False
      then have "16 \<le> n" by simp
      with \<open>is_fmt c\<close> nd False show ?thesis
        unfolding buf_def [symmetric]
        using size' fits id' rd [OF \<open>16 \<le> n\<close>] next_off
        by (simp add: loop_body_def Let_def tag_is_fmt tag_is_data t_def after_chunk_def n_def p_def)
    qed
  next
    case False
    then show ?thesis
      unfolding buf_def [symmetric]
      using size' fits id' next_off
      by (simp add: loop_body_def Let_def tag_is_fmt tag_is_data t_def after_chunk_def n_def p_def)
  qed
qed

lemma encode_chunks_simps [simp]:
  "encode_chunks [] = []"
  "encode_chunks (c # cs) = encode_chunk c @ encode_chunks cs"
  "encode_chunks (xs @ ys) = encode_chunks xs @ encode_chunks ys"
  by (simp_all add: encode_chunks_def)

lemma scan_continue:
  assumes "loop_body buf st = Continue st'"
  shows "scan buf st = scan buf st'"
  using assms loop_body_within [OF assms] by (simp add: scan.simps)

lemma scan_chunks:
  assumes "list_all scannable cs" and "offset st = length pre"
  shows "scan (pre @ encode_chunks cs @ rest) st
       = scan (pre @ encode_chunks cs @ rest) (foldl after_chunk st cs)"
  using assms
proof (induction cs arbitrary: pre st)
  case Nil
  show ?case by simp
next
  case (Cons c cs)
  let ?buf = "pre @ encode_chunk c @ encode_chunks cs @ rest"
  from Cons.prems(1) have sc: "scannable c" and cs: "list_all scannable cs"
    by simp_all
  from sc have c: "wellformed_chunk c" "is_fmt c \<Longrightarrow> 16 \<le> length (payload c)"
    by (simp_all add: scannable_def split: if_splits)
  have "loop_body ?buf st = Continue (after_chunk st c)"
    using loop_body_chunk [OF c(1) Cons.prems(2), of "encode_chunks cs @ rest"] c(2) by auto
  then have "scan ?buf st = scan ?buf (after_chunk st c)"
    by (rule scan_continue)
  also have "offset (after_chunk st c) = length (pre @ encode_chunk c)"
    using Cons.prems(2) by (simp add: after_chunk_def)
  then have "scan ((pre @ encode_chunk c) @ encode_chunks cs @ rest) (after_chunk st c)
      = scan ((pre @ encode_chunk c) @ encode_chunks cs @ rest) (foldl after_chunk (after_chunk st c) cs)"
    using cs by (intro Cons.IH)
  then have "scan ?buf (after_chunk st c) = scan ?buf (foldl after_chunk (after_chunk st c) cs)"
    by simp
  finally show ?case by simp
qed

lemma offset_after_chunks:
  "offset (foldl after_chunk st cs) = offset st + length (encode_chunks cs)"
  by (induction cs arbitrary: st) (simp_all add: after_chunk_def)

lemma fmt_after_others:
  "list_all (\<lambda>c. \<not> is_fmt c) cs \<Longrightarrow> fmt (foldl after_chunk st cs) = fmt st"
  by (induction cs arbitrary: st) (simp_all add: after_chunk_def)

lemma data_after_others:
  "list_all (\<lambda>c. \<not> is_data c) cs \<Longrightarrow> data (foldl after_chunk st cs) = data st"
  by (induction cs arbitrary: st) (simp_all add: after_chunk_def)

lemma fmt_after_last:
  assumes "is_fmt F" and "list_all (\<lambda>c. \<not> is_fmt c) ys"
  shows "fmt (foldl after_chunk st (xs @ F # ys)) = Some (fmt_fields (payload F))"
  using assms by (simp add: fmt_after_others after_chunk_def)

lemma data_after_last:
  assumes "is_data D" and "list_all (\<lambda>c. \<not> is_data c) ys"
  shows "data (foldl after_chunk st (xs @ D # ys))
       = Some (offset st + length (encode_chunks xs) + 8, length (payload D))"
  using assms by (simp add: data_after_others after_chunk_def offset_after_chunks)

lemma container_header:
  "length (wav_container cs) = 12 + length (encode_chunks cs)"
  "toString_ascii (wav_container cs) 0 4 = js ''RIFF''"
  "toString_ascii (wav_container cs) 8 12 = js ''WAVE''"
  by (simp_all add: wav_container_def bytes_tags js_tags toString_ascii_def le32_def)

lemma scan_container:
  assumes "list_all scannable cs"
  shows "scan (wav_container cs) \<lparr>offset = 12, fmt = None, data = None\<rparr>
       = Inr (foldl after_chunk \<lparr>offset = 12, fmt = None, data = None\<rparr> cs)"
proof -
  let ?init = "\<lparr>offset = 12, fmt = None, data = None\<rparr>"
  let ?pre = "bytes ''RIFF'' @ le32 (4 + length (encode_chunks cs)) @ bytes ''WAVE''"
  have pre: "offset ?init = length ?pre" by (simp add: bytes_tags)
  have buf: "wav_container cs = ?pre @ encode_chunks cs @ []"
    by (simp add: wav_container_def)
  have "scan (wav_container cs) ?init = scan (wav_container cs) (foldl after_chunk ?init cs)"
    unfolding buf using assms pre by (rule scan_chunks)
  also have "\<dots> = Inr (foldl after_chunk ?init cs)"
    by (rule scan_end) (simp add: offset_after_chunks container_header)
  finally show ?thesis .
qed

lemma parseWav_container:
  assumes "list_all scannable cs"
  shows "parseWav (wav_container cs) =
     (case fmt (foldl after_chunk \<lparr>offset = 12, fmt = None, data = None\<rparr> cs) of
        None \<Rightarrow> Inl (Error (js ''WAV missing fmt chunk.''))
      | Some f \<Rightarrow>
         (case data (foldl after_chunk \<lparr>offset = 12, fmt = None, data = None\<rparr> cs) of
            None \<Rightarrow> Inl (Error (js ''WAV missing data chunk.''))
          | Some (dOff, dSize) \<Rightarrow>
              Inr \<lparr>audioFormat = audioFormat f, numChannels = numChannels f,
                   sampleRate = sampleRate f, bitsPerSample = bitsPerSample f,
                   dataOffset = dOff, dataSize = dSize, pcmBytes = dSize\<rparr>))"
  by (simp add: parseWav_def container_header scan_container [OF assms])

lemma parseWav_last_chunks:
  assumes "list_all scannable cs"
    and "cs = xs @ F # ys" "is_fmt F" "list_all (\<lambda>c. \<not> is_fmt c) ys"
    and "cs = xs' @ D # ys'" "is_data D" "list_all (\<lambda>c. \<not> is_data c) ys'"
  shows "parseWav (wav_container cs) =
     Inr \<lparr>audioFormat = u16_at (payload F) 0, numChannels = u16_at (payload F) 2,
          sampleRate = u32_at (payload F) 4, bitsPerSample = u16_at (payload F) 14,
          dataOffset = 20 + length (encode_chunks xs'), dataSize = length (payload D),
          pcmBytes = length (payload D)\<rparr>"
proof -
  let ?st = "foldl after_chunk \<lparr>offset = 12, fmt = None, data = None\<rparr> cs"
  have "fmt ?st = Some (fmt_fields (payload F))"
    unfolding assms(2) using assms(3,4) by (rule fmt_after_last)
  moreover have "data ?st = Some (20 + length (encode_chunks xs'), length (payload D))"
    unfolding assms(5) using data_after_last [OF assms(6,7), of "\<lparr>offset = 12, fmt = None, data = None\<rparr>" xs']
    by simp
  ultimately show ?thesis
    by (simp add: parseWav_container [OF assms(1)] fmt_fields_def)
qed

lemma subarray_data_chunk:
  assumes "length (tag D) = 4"
  shows "subarray (wav_container (xs @ D # ys)) (20 + length (encode_chunks xs))
           (20 + length (encode_chunks xs) + length (payload D)) = payload D"
proof -
  let ?pre = "bytes ''RIFF'' @ le32 (4 + length (encode_chunks (xs @ D # ys))) @ bytes ''WAVE''
              @ encode_chunks xs @ tag D @ le32 (length (payload D))"
  have "wav_container (xs @ D # ys) = ?pre @ payload D
          @ (if odd (length (payload D)) then [0] else []) @ encode_chunks ys"
    by (simp add: wav_container_def encode_chunk_def)
  moreover have "length ?pre = 20 + length (encode_chunks xs)"
    using assms by (simp add: bytes_tags)
  ultimately show ?thesis
    by (simp add: subarray_def)
qed

lemma scan_chunks_then_truncated:
  assumes "list_all scannable cs" and "offset st = length pre"
    and "length rest < 8 \<or> length rest < 8 + u32_at rest 4"
  shows "scan (pre @ encode_chunks cs @ rest) st = Inr (foldl after_chunk st cs)"
proof -
  let ?buf = "pre @ encode_chunks cs @ rest"
  let ?st = "foldl after_chunk st cs"
  have off: "offset ?st = length (pre @ encode_chunks cs)"
    using assms(2) by (simp add: offset_after_chunks)
  have "scan ?buf st = scan ?buf ?st"
    using assms(1,2) by (rule scan_chunks)
  also have "\<dots> = Inr ?st"
  proof (cases "length rest < 8")
    case True
    then show ?thesis by (intro scan_end) (simp add: off)
  next
    case False
    then have fits: "offset ?st + 4 + 4 \<le> length ?buf" by (simp add: off)
    have "u32_at ?buf (length (pre @ encode_chunks cs) + 4) = u32_at rest 4"
      using u32_at_append [of 4 rest "pre @ encode_chunks cs" "[]"] False by simp
    then have "readUInt32LE ?buf (offset ?st + 4) = Inr (u32_at rest 4)"
      using readUInt32LE_within [OF fits] off by simp
    moreover have "length ?buf < offset ?st + 8 + u32_at rest 4"
      using assms(3) False by (simp add: off)
    moreover have "offset ?st + 8 \<le> length ?buf" using fits by simp
    ultimately show ?thesis by (intro scan_break)
  qed
  finally show ?thesis .
qed

lemma parseWav_truncated_tail:
  assumes "list_all scannable cs" and "length rest < 8 \<or> length rest < 8 + u32_at rest 4"
  shows "parseWav (wav_container cs @ rest) = parseWav (wav_container cs)"
proof -
  let ?init = "\<lparr>offset = 12, fmt = None, data = None\<rparr>"
  let ?pre = "bytes ''RIFF'' @ le32 (4 + length (encode_chunks cs)) @ bytes ''WAVE''"
  have pre: "offset ?init = length ?pre" by (simp add: bytes_tags)
  have buf: "wav_container cs @ rest = ?pre @ encode_chunks cs @ rest"
    by (simp add: wav_container_def)
  have "scan (wav_container cs @ rest) ?init = Inr (foldl after_chunk ?init cs)"
    unfolding buf using assms(1) pre assms(2) by (rule scan_chunks_then_truncated)
  moreover have "toString_ascii (wav_container cs @ rest) 0 4 = js ''RIFF''"
    "toString_ascii (wav_container cs @ rest) 8 12 = js ''WAVE''"
    by (simp_all add: wav_container_def bytes_tags js_tags toString_ascii_def le32_def)
  ultimately show ?thesis
    by (simp add: parseWav_def scan_container [OF assms(1)] container_header)
qed

section \<open>The two chunk orders\<close>

lemma other_chunk_scannable: "list_all other_chunk cs \<Longrightarrow> list_all scannable cs"
  by (simp add: list_all_iff other_chunk_def scannable_def)

lemma other_chunk_not_fmt: "list_all other_chunk cs \<Longrightarrow> list_all (\<lambda>c. \<not> is_fmt c) cs"
  by (simp add: list_all_iff other_chunk_def)

lemma other_chunk_not_data: "list_all other_chunk cs \<Longrightarrow> list_all (\<lambda>c. \<not> is_data c) cs"
  by (simp add: list_all_iff other_chunk_def)

lemma fmt_chunk_scannable:
  "16 \<le> length f \<Longrightarrow> length f < 2 ^ 32 \<Longrightarrow> scannable (Chunk (bytes ''fmt '') f)"
  by (simp add: scannable_def wellformed_chunk_def bytes_tags)

lemma data_chunk_scannable:
  "length d < 2 ^ 32 \<Longrightarrow> scannable (Chunk (bytes ''data'') d)"
  by (simp add: scannable_def wellformed_chunk_def bytes_tags is_fmt_def)

lemma fmt_not_data: "\<not> is_data (Chunk (bytes ''fmt '') f)" "\<not> is_fmt (Chunk (bytes ''data'') d)"
  "is_fmt (Chunk (bytes ''fmt '') f)" "is_data (Chunk (bytes ''data'') d)"
  by (simp_all add: is_fmt_def is_data_def bytes_tags)

lemma parseWav_fmt_then_data:
  assumes "list_all other_chunk a1" "list_all other_chunk a2" "list_all other_chunk a3"
    and "16 \<le> length f" "length f < 2 ^ 32" "length d < 2 ^ 32"
  shows "parseWav (wav_container
            (a1 @ [Chunk (bytes ''fmt '') f] @ a2 @ [Chunk (bytes ''data'') d] @ a3)) =
     Inr \<lparr>audioFormat = u16_at f 0, numChannels = u16_at f 2,
          sampleRate = u32_at f 4, bitsPerSample = u16_at f 14,
          dataOffset = 20 + length (encode_chunks (a1 @ [Chunk (bytes ''fmt '') f] @ a2)),
          dataSize = length d, pcmBytes = length d\<rparr>"
proof -
  let ?F = "Chunk (bytes ''fmt '') f" and ?D = "Chunk (bytes ''data'') d"
  let ?cs = "a1 @ [?F] @ a2 @ [?D] @ a3"
  have sc: "list_all scannable ?cs"
    using assms by (simp add: other_chunk_scannable fmt_chunk_scannable data_chunk_scannable)
  have "parseWav (wav_container ?cs) =
     Inr \<lparr>audioFormat = u16_at (payload ?F) 0, numChannels = u16_at (payload ?F) 2,
          sampleRate = u32_at (payload ?F) 4, bitsPerSample = u16_at (payload ?F) 14,
          dataOffset = 20 + length (encode_chunks (a1 @ [?F] @ a2)), dataSize = length (payload ?D),
          pcmBytes = length (payload ?D)\<rparr>"
  proof (rule parseWav_last_chunks [OF sc])
    show "?cs = a1 @ ?F # (a2 @ [?D] @ a3)" by simp
    show "is_fmt ?F" by (rule fmt_not_data)
    show "list_all (\<lambda>c. \<not> is_fmt c) (a2 @ [?D] @ a3)"
      using assms(2,3) by (simp add: other_chunk_not_fmt fmt_not_data)
    show "?cs = (a1 @ [?F] @ a2) @ ?D # a3" by simp
    show "is_data ?D" by (rule fmt_not_data)
    show "list_all (\<lambda>c. \<not> is_data c) a3"
      using assms(3) by (rule other_chunk_not_data)
  qed
  then show ?thesis by simp
qed

lemma parseWav_data_then_fmt:
  assumes "list_all other_chunk b1" "list_all other_chunk b2" "list_all other_chunk b3"
    and "16 \<le> length f" "length f < 2 ^ 32" "length d < 2 ^ 32"
  shows "parseWav (wav_container
            (b1 @ [Chunk (bytes ''data'') d] @ b2 @ [Chunk (bytes ''fmt '') f] @ b3)) =
     Inr \<lparr>audioFormat = u16_at f 0, numChannels = u16_at f 2,
          sampleRate = u32_at f 4, bitsPerSample = u16_at f 14,
          dataOffset = 20 + length (encode_chunks b1),
          dataSize = length d, pcmBytes = length d\<rparr>"
proof -
  let ?F = "Chunk (bytes ''fmt '') f" and ?D = "Chunk (bytes ''data'') d"
  let ?cs = "b1 @ [?D] @ b2 @ [?F] @ b3"
  have sc: "list_all scannable ?cs"
    using assms by (simp add: other_chunk_scannable fmt_chunk_scannable data_chunk_scannable)
  have "parseWav (wav_container ?cs) =
     Inr \<lparr>audioFormat = u16_at (payload ?F) 0, numChannels = u16_at (payload ?F) 2,
          sampleRate = u32_at (payload ?F) 4, bitsPerSample = u16_at (payload ?F) 14,
          dataOffset = 20 + length (encode_chunks b1), dataSize = length (payload ?D),
          pcmBytes = length (payload ?D)\<rparr>"
  proof (rule parseWav_last_chunks [OF sc])
    show "?cs = (b1 @ [?D] @ b2) @ ?F # b3" by simp
    show "is_fmt ?F" by (rule fmt_not_data)
    show "list_all (\<lambda>c. \<not> is_fmt c) b3"
      using assms(3) by (rule other_chunk_not_fmt)
    show "?cs = b1 @ ?D # (b2 @ [?F] @ b3)" by simp
    show "is_data ?D" by (rule fmt_not_data)
    show "list_all (\<lambda>c. \<not> is_data c) (b2 @ [?F] @ b3)"
      using assms(2,3) by (simp add: other_chunk_not_data fmt_not_data)
  qed
  then show ?thesis by simp
qed

lemma loop_body_next_offset:
  assumes "loop_body buf st = Continue st'" and "readUInt32LE buf (offset st + 4) = Inr n"
  shows "offset st' = offset st + 8 + n + (if odd n then 1 else 0)"
  using assms
  by (auto simp: loop_body_def Let_def odd_iff_mod_2_eq_one split: sum.splits if_splits)

section \<open>The header check and the bounds of the reads\<close>

lemma parseWav_short_buffer:
  "length buf < 12 \<Longrightarrow> parseWav buf = Inl (Error (js ''Invalid WAV buffer.''))"
  by (simp add: parseWav_def)

lemma parseWav_never_reads_out_of_range: "parseWav buf \<noteq> Inl (RangeError m)"
  using parseWav_throws [of buf "RangeError m"] by (auto simp: parse_errors_def)


lemma js_magic_bytes:
  "js ''RIFF'' = map ucast (bytes ''RIFF'')" "js ''WAVE'' = map ucast (bytes ''WAVE'')"
  by (simp_all add: js_tags bytes_tags)

lemma toString_ascii_clean:
  assumes "list_all (\<lambda>b. b < 0x80) (take (end' - start) (drop start buf))"
  shows "toString_ascii buf start end' = map ucast (take (end' - start) (drop start buf))"
  using assms by (simp add: toString_ascii_def list_all_iff ascii_byte)

lemma parseWav_wrong_magic:
  assumes "12 \<le> length buf"
    and "list_all (\<lambda>b. b < 0x80) (take 4 buf)" and "list_all (\<lambda>b. b < 0x80) (take 4 (drop 8 buf))"
    and "take 4 buf \<noteq> bytes ''RIFF'' \<or> take 4 (drop 8 buf) \<noteq> bytes ''WAVE''"
  shows "parseWav buf = Inl (Error (js ''Invalid WAV: expected RIFF/WAVE.''))"
proof -
  have "toString_ascii buf 0 4 = map ucast (take 4 buf)"
    using toString_ascii_clean [of 4 0 buf] assms(2) by simp
  moreover have "toString_ascii buf 8 12 = map ucast (take 4 (drop 8 buf))"
    using toString_ascii_clean [of 12 8 buf] assms(3) by simp
  ultimately have "toString_ascii buf 0 4 \<noteq> js ''RIFF'' \<or> toString_ascii buf 8 12 \<noteq> js ''WAVE''"
    using assms(4) by (simp only: js_magic_bytes map_ucast_byte_inj)
  with assms(1) show ?thesis by (simp add: parseWav_def Let_def)
qed

section \<open>Claims about the parser\<close>

text \<open>The definitions that evaluate a concrete container and its parse.\<close>

lemmas container_eval =
  wav_container_def encode_chunk_def le32_def bytes_tags scannable_def wellformed_chunk_def
  is_fmt_def is_data_def u16_at_def u32_at_def

lemmas chunk_eval =
  other_chunk_def scannable_def wellformed_chunk_def is_fmt_def is_data_def bytes_def

lemmas parse_eval =
  parseWav_def js_tags toString_ascii_def scan.simps loop_body_def readUInt32LE_def
  readUInt16LE_def read_fmt_def Let_def

text \<open>
  Claim C7. A chunk whose declared payload would reach past the end of the buffer ends the
  scan without an error, and what was found before it stays: from any state of the loop the
  scan returns that very state; a container followed by a truncated chunk (fewer than 8
  bytes, or a declared length that the remaining bytes do not cover) parses to the same
  result as the container alone. And every header that \<open>parseWav\<close> returns satisfies
  \<open>dataOffset + dataSize \<le> buf.length\<close>.
\<close>

theorem truncated_chunk_ends_scan:
  "(offset st + 8 \<le> length buf \<and> readUInt32LE buf (offset st + 4) = Inr n
      \<and> length buf < offset st + 8 + n \<longrightarrow> scan buf st = Inr st)
   \<and> (list_all scannable cs \<and> (length rest < 8 \<or> length rest < 8 + u32_at rest 4)
        \<longrightarrow> parseWav (wav_container cs @ rest) = parseWav (wav_container cs))
   \<and> (parseWav buf' = Inr h \<longrightarrow> dataOffset h + dataSize h \<le> length buf')"
  using scan_break [of st buf n] parseWav_truncated_tail [of cs rest] parseWav_data_within [of buf' h]
  by blast


text \<open>
  An instance: a \<open>fmt\<close> chunk, a \<open>data\<close> chunk of four bytes, and a \<open>LIST\<close> chunk that
  declares 16 bytes and has two.
\<close>

theorem truncated_chunk_ends_scan_witness:
  "scan (wav_container
           [Chunk (bytes ''fmt '') [1, 0, 1, 0, 0x80, 0x3E, 0, 0, 0, 0x7D, 0, 0, 2, 0, 16, 0],
            Chunk (bytes ''data'') [1, 2, 3, 4]]
         @ [0x4C, 0x49, 0x53, 0x54, 16, 0, 0, 0, 0x41, 0x42])
        \<lparr>offset = 48,
         fmt = Some \<lparr>audioFormat = 1, numChannels = 1, sampleRate = 16000, bitsPerSample = 16\<rparr>,
         data = Some (44, 4)\<rparr>
     = Inr \<lparr>offset = 48,
            fmt = Some \<lparr>audioFormat = 1, numChannels = 1, sampleRate = 16000,
                        bitsPerSample = 16\<rparr>,
            data = Some (44, 4)\<rparr>
   \<and> parseWav (wav_container
           [Chunk (bytes ''fmt '') [1, 0, 1, 0, 0x80, 0x3E, 0, 0, 0, 0x7D, 0, 0, 2, 0, 16, 0],
            Chunk (bytes ''data'') [1, 2, 3, 4]]
         @ [0x4C, 0x49, 0x53, 0x54, 16, 0, 0, 0, 0x41, 0x42])
     = parseWav (wav_container
           [Chunk (bytes ''fmt '') [1, 0, 1, 0, 0x80, 0x3E, 0, 0, 0, 0x7D, 0, 0, 2, 0, 16, 0],
            Chunk (bytes ''data'') [1, 2, 3, 4]])
   \<and> parseWav (wav_container
           [Chunk (bytes ''fmt '') [1, 0, 1, 0, 0x80, 0x3E, 0, 0, 0, 0x7D, 0, 0, 2, 0, 16, 0],
            Chunk (bytes ''data'') [1, 2, 3, 4]]
         @ [0x4C, 0x49, 0x53, 0x54, 16, 0, 0, 0, 0x41, 0x42])
     = Inr \<lparr>audioFormat = 1, numChannels = 1, sampleRate = 16000, bitsPerSample = 16,
            dataOffset = 44, dataSize = 4, pcmBytes = 4\<rparr>
   \<and> (44 :: nat) + 4 \<le> 58"
  using truncated_chunk_ends_scan
    [of "\<lparr>offset = 48,
          fmt = Some \<lparr>audioFormat = 1, numChannels = 1, sampleRate = 16000, bitsPerSample = 16\<rparr>,
          data = Some (44, 4)\<rparr>"
        "wav_container
           [Chunk (bytes ''fmt '') [1, 0, 1, 0, 0x80, 0x3E, 0, 0, 0, 0x7D, 0, 0, 2, 0, 16, 0],
            Chunk (bytes ''data'') [1, 2, 3, 4]]
         @ [0x4C, 0x49, 0x53, 0x54, 16, 0, 0, 0, 0x41, 0x42]"
        16
        "[Chunk (bytes ''fmt '') [1, 0, 1, 0, 0x80, 0x3E, 0, 0, 0, 0x7D, 0, 0, 2, 0, 16, 0],
          Chunk (bytes ''data'') [1, 2, 3, 4]]"
        "[0x4C, 0x49, 0x53, 0x54, 16, 0, 0, 0, 0x41, 0x42]"
        "wav_container
           [Chunk (bytes ''fmt '') [1, 0, 1, 0, 0x80, 0x3E, 0, 0, 0, 0x7D, 0, 0, 2, 0, 16, 0],
            Chunk (bytes ''data'') [1, 2, 3, 4]]
         @ [0x4C, 0x49, 0x53, 0x54, 16, 0, 0, 0, 0x41, 0x42]"
        "\<lparr>audioFormat = 1, numChannels = 1, sampleRate = 16000, bitsPerSample = 16,
          dataOffset = 44, dataSize = 4, pcmBytes = 4\<rparr>"]
  by (simp add: container_eval parse_eval)

text \<open>
  Claim C3. Take any \<open>fmt\<close> payload of at least 16 bytes and any \<open>data\<close> payload, and any
  well-formed other chunks before, between and after them. The container with \<open>fmt\<close> before
  \<open>data\<close> and the one with \<open>data\<close> before \<open>fmt\<close> both parse, to the same \<open>sampleRate\<close>,
  \<open>numChannels\<close> and \<open>bitsPerSample\<close> (the values in the \<open>fmt\<close> payload), and to a
  \<open>dataSize\<close> that is the length of the \<open>data\<close> payload.
\<close>

theorem chunk_order_does_not_matter:
  assumes "list_all other_chunk (a1 @ a2 @ a3)" and "list_all other_chunk (b1 @ b2 @ b3)"
    and "16 \<le> length f" and "length f < 2 ^ 32" and "length d < 2 ^ 32"
  shows "\<exists>h1 h2.
     parseWav (wav_container
       (a1 @ [Chunk (bytes ''fmt '') f] @ a2 @ [Chunk (bytes ''data'') d] @ a3)) = Inr h1
   \<and> parseWav (wav_container
       (b1 @ [Chunk (bytes ''data'') d] @ b2 @ [Chunk (bytes ''fmt '') f] @ b3)) = Inr h2
   \<and> sampleRate h1 = sampleRate h2 \<and> numChannels h1 = numChannels h2
   \<and> bitsPerSample h1 = bitsPerSample h2
   \<and> sampleRate h1 = u32_at f 4 \<and> numChannels h1 = u16_at f 2 \<and> bitsPerSample h1 = u16_at f 14
   \<and> dataSize h1 = length d \<and> dataSize h2 = length d"
proof -
  from assms(1) have a: "list_all other_chunk a1" "list_all other_chunk a2" "list_all other_chunk a3"
    by simp_all
  from assms(2) have b: "list_all other_chunk b1" "list_all other_chunk b2" "list_all other_chunk b3"
    by simp_all
  show ?thesis
    using parseWav_fmt_then_data [OF a assms(3,4,5)] parseWav_data_then_fmt [OF b assms(3,4,5)]
    by simp
qed

text \<open>An instance, with a chunk of odd length in front and one behind.\<close>

theorem chunk_order_does_not_matter_witness:
  "list_all other_chunk ([Chunk (bytes ''LIST'') [1, 2, 3]] @ [] @ [Chunk (bytes ''JUNK'') [0]])
   \<and> list_all other_chunk ([] @ [Chunk (bytes ''LIST'') [1, 2, 3]] @ [])
   \<and> (\<exists>h1 h2.
     parseWav (wav_container
       ([Chunk (bytes ''LIST'') [1, 2, 3]]
        @ [Chunk (bytes ''fmt '') [1, 0, 1, 0, 0x80, 0x3E, 0, 0, 0, 0x7D, 0, 0, 2, 0, 16, 0]]
        @ [] @ [Chunk (bytes ''data'') [9, 8, 7, 6]] @ [Chunk (bytes ''JUNK'') [0]])) = Inr h1
   \<and> parseWav (wav_container
       ([] @ [Chunk (bytes ''data'') [9, 8, 7, 6]] @ [Chunk (bytes ''LIST'') [1, 2, 3]]
        @ [Chunk (bytes ''fmt '') [1, 0, 1, 0, 0x80, 0x3E, 0, 0, 0, 0x7D, 0, 0, 2, 0, 16, 0]]
        @ [])) = Inr h2
   \<and> sampleRate h1 = sampleRate h2 \<and> numChannels h1 = numChannels h2
   \<and> bitsPerSample h1 = bitsPerSample h2
   \<and> sampleRate h1 = 16000 \<and> numChannels h1 = 1 \<and> bitsPerSample h1 = 16
   \<and> dataSize h1 = length [9, 8, 7, 6 :: byte]
   \<and> dataSize h2 = length [9, 8, 7, 6 :: byte])"
  using chunk_order_does_not_matter
    [of "[Chunk (bytes ''LIST'') [1, 2, 3]]" "[]" "[Chunk (bytes ''JUNK'') [0]]"
        "[]" "[Chunk (bytes ''LIST'') [1, 2, 3]]" "[]"
        "[1, 0, 1, 0, 0x80, 0x3E, 0, 0, 0, 0x7D, 0, 0, 2, 0, 16, 0]" "[9, 8, 7, 6]"]
  by (simp add: chunk_eval u16_at_def u32_at_def)

text \<open>
  Claim C4. Round trip: for a container with a \<open>data\<close> chunk of payload \<open>d\<close>, no \<open>data\<close>
  chunk after it and a \<open>fmt\<close> chunk somewhere, the slice of the buffer over
  \<open>[dataOffset, dataOffset + dataSize)\<close> with the parsed header is \<open>d\<close>, byte for byte; and
  the handler takes that slice: for PCM, mono, 16 bits, what it hands to the recognition
  as samples is \<open>d\<close>, whatever the runtime.
\<close>

theorem extracted_samples_are_the_payload:
  assumes "list_all scannable (xs @ Chunk (bytes ''data'') d # ys)"
    and "list_all (\<lambda>c. \<not> is_data c) ys"
    and "list_ex is_fmt (xs @ Chunk (bytes ''data'') d # ys)"
  shows "\<exists>h. parseWav (wav_container (xs @ Chunk (bytes ''data'') d # ys)) = Inr h
     \<and> dataSize h = length d
     \<and> subarray (wav_container (xs @ Chunk (bytes ''data'') d # ys))
          (dataOffset h) (dataOffset h + dataSize h) = d
     \<and> (audioFormat h = 1 \<and> numChannels h = 1 \<and> bitsPerSample h = 16 \<longrightarrow>
          assess_audio rt key region locale' referenceText
            (wav_container (xs @ Chunk (bytes ''data'') d # ys)) h =
          (case recognizeOnce rt key region locale' referenceText (sampleRate h) d of
             Inl err \<Rightarrow> caught err
           | Inr res \<Rightarrow>
               \<lparr>status = 200,
                headers = [(js ''Content-Type'', js ''application/json; charset=utf-8'')],
                jsonBody = AssessBody
                  \<lparr>res_locale = locale',
                   res_referenceText = referenceText,
                   recognizedText = js_or (result_text res) (Str []),
                   accuracyScore = nullish_or (pa_accuracyScore res) (Num 0),
                   pronunciationScore = nullish_or (pa_pronunciationScore res) (Num 0),
                   completenessScore = nullish_or (pa_completenessScore res) (Num 0),
                   fluencyScore = nullish_or (pa_fluencyScore res) (Num 0),
                   prosodyScore = nullish_or (pa_prosodyScore res) Null,
                   audioInfo = h,
                   raw = rawJson rt res\<rparr>\<rparr>))"
proof -
  let ?D = "Chunk (bytes ''data'') d"
  let ?cs = "xs @ ?D # ys"
  from assms(3) have "\<exists>c\<in>set ?cs. is_fmt c" by (simp only: list_ex_iff)
  then obtain us F vs where F: "?cs = us @ F # vs" "is_fmt F" "\<forall>c\<in>set vs. \<not> is_fmt c"
    using split_list_last_prop [of ?cs is_fmt] by blast
  from F(3) have vs: "list_all (\<lambda>c. \<not> is_fmt c) vs" by (simp add: list_all_iff)
  define h where "h =
     \<lparr>audioFormat = u16_at (payload F) 0, numChannels = u16_at (payload F) 2,
      sampleRate = u32_at (payload F) 4, bitsPerSample = u16_at (payload F) 14,
      dataOffset = 20 + length (encode_chunks xs), dataSize = length (payload ?D),
      pcmBytes = length (payload ?D)\<rparr>"
  have p: "parseWav (wav_container ?cs) = Inr h"
    unfolding h_def
    using assms(1) F(1,2) vs refl fmt_not_data(4) assms(2) by (rule parseWav_last_chunks)
  have "subarray (wav_container ?cs) (20 + length (encode_chunks xs))
      (20 + length (encode_chunks xs) + length (payload ?D)) = payload ?D"
    by (rule subarray_data_chunk) (simp add: bytes_tags)
  then have s: "subarray (wav_container ?cs) (dataOffset h) (dataOffset h + dataSize h) = d"
    by (simp add: h_def)
  have n: "dataSize h = length d" by (simp add: h_def)
  have "audioFormat h = 1 \<and> numChannels h = 1 \<and> bitsPerSample h = 16 \<longrightarrow>
          assess_audio rt key region locale' referenceText (wav_container ?cs) h =
          (case recognizeOnce rt key region locale' referenceText (sampleRate h) d of
             Inl err \<Rightarrow> caught err
           | Inr res \<Rightarrow>
               \<lparr>status = 200,
                headers = [(js ''Content-Type'', js ''application/json; charset=utf-8'')],
                jsonBody = AssessBody
                  \<lparr>res_locale = locale',
                   res_referenceText = referenceText,
                   recognizedText = js_or (result_text res) (Str []),
                   accuracyScore = nullish_or (pa_accuracyScore res) (Num 0),
                   pronunciationScore = nullish_or (pa_pronunciationScore res) (Num 0),
                   completenessScore = nullish_or (pa_completenessScore res) (Num 0),
                   fluencyScore = nullish_or (pa_fluencyScore res) (Num 0),
                   prosodyScore = nullish_or (pa_prosodyScore res) Null,
                   audioInfo = h,
                   raw = rawJson rt res\<rparr>\<rparr>)"
    unfolding assess_audio_def Let_def s by simp
  with p n s show ?thesis by blast
qed

text \<open>
  An instance: the payload of five bytes comes back, and a recognition that accepts these
  five bytes and no others is given them.
\<close>

theorem extracted_samples_are_the_payload_witness:
  "\<exists>h. parseWav (wav_container
          ([Chunk (bytes ''LIST'') [1, 2, 3],
            Chunk (bytes ''fmt '') [1, 0, 1, 0, 0x80, 0x3E, 0, 0, 0, 0x7D, 0, 0, 2, 0, 16, 0]]
           @ Chunk (bytes ''data'') [9, 8, 7, 6, 5] # [Chunk (bytes ''JUNK'') [0]])) = Inr h
     \<and> dataSize h = length [9, 8, 7, 6, 5 :: byte]
     \<and> subarray (wav_container
          ([Chunk (bytes ''LIST'') [1, 2, 3],
            Chunk (bytes ''fmt '') [1, 0, 1, 0, 0x80, 0x3E, 0, 0, 0, 0x7D, 0, 0, 2, 0, 16, 0]]
           @ Chunk (bytes ''data'') [9, 8, 7, 6, 5] # [Chunk (bytes ''JUNK'') [0]]))
          (dataOffset h) (dataOffset h + dataSize h) = [9, 8, 7, 6, 5]
     \<and> audioFormat h = 1 \<and> numChannels h = 1 \<and> bitsPerSample h = 16
     \<and> status
          (assess_audio
            (example_runtime
               \<lparr>recognizeOnce := (\<lambda>key region locale' referenceText rate pcm.
                  if pcm = [9, 8, 7, 6, 5] then Inr example_result
                  else Inl (Error (js ''other samples'')))\<rparr>)
            (js ''key'') (js ''eastus'') (Str (js ''en-US'')) (Str (js ''hi''))
            (wav_container
              ([Chunk (bytes ''LIST'') [1, 2, 3],
                Chunk (bytes ''fmt '')
                  [1, 0, 1, 0, 0x80, 0x3E, 0, 0, 0, 0x7D, 0, 0, 2, 0, 16, 0]]
               @ Chunk (bytes ''data'') [9, 8, 7, 6, 5] # [Chunk (bytes ''JUNK'') [0]]))
            h) = 200"
proof -
  let ?rt = "example_runtime
           \<lparr>recognizeOnce := (\<lambda>key region locale' referenceText rate pcm.
              if pcm = [9, 8, 7, 6, 5] then Inr example_result
              else Inl (Error (js ''other samples'')))\<rparr>"
  let ?buf = "wav_container
          ([Chunk (bytes ''LIST'') [1, 2, 3],
            Chunk (bytes ''fmt '') [1, 0, 1, 0, 0x80, 0x3E, 0, 0, 0, 0x7D, 0, 0, 2, 0, 16, 0]]
           @ Chunk (bytes ''data'') [9, 8, 7, 6, 5] # [Chunk (bytes ''JUNK'') [0]])"
  have "\<exists>h. parseWav ?buf = Inr h
     \<and> dataSize h = length [9, 8, 7, 6, 5 :: byte]
     \<and> subarray ?buf (dataOffset h) (dataOffset h + dataSize h) = [9, 8, 7, 6, 5]
     \<and> (audioFormat h = 1 \<and> numChannels h = 1 \<and> bitsPerSample h = 16 \<longrightarrow>
          assess_audio ?rt (js ''key'') (js ''eastus'') (Str (js ''en-US'')) (Str (js ''hi'')) ?buf h =
          (case recognizeOnce ?rt (js ''key'') (js ''eastus'') (Str (js ''en-US'')) (Str (js ''hi''))
                  (sampleRate h) [9, 8, 7, 6, 5] of
             Inl err \<Rightarrow> caught err
           | Inr res \<Rightarrow>
               \<lparr>status = 200,
                headers = [(js ''Content-Type'', js ''application/json; charset=utf-8'')],
                jsonBody = AssessBody
                  \<lparr>res_locale = Str (js ''en-US''),
                   res_referenceText = Str (js ''hi''),
                   recognizedText = js_or (result_text res) (Str []),
                   accuracyScore = nullish_or (pa_accuracyScore res) (Num 0),
                   pronunciationScore = nullish_or (pa_pronunciationScore res) (Num 0),
                   completenessScore = nullish_or (pa_completenessScore res) (Num 0),
                   fluencyScore = nullish_or (pa_fluencyScore res) (Num 0),
                   prosodyScore = nullish_or (pa_prosodyScore res) Null,
                   audioInfo = h,
                   raw = rawJson ?rt res\<rparr>\<rparr>))"
    by (rule extracted_samples_are_the_payload) (simp_all add: chunk_eval)
  then obtain h where h: "parseWav ?buf = Inr h"
    and n: "dataSize h = length [9, 8, 7, 6, 5 :: byte]"
    and s: "subarray ?buf (dataOffset h) (dataOffset h + dataSize h) = [9, 8, 7, 6, 5]"
    and a: "audioFormat h = 1 \<and> numChannels h = 1 \<and> bitsPerSample h = 16 \<longrightarrow>
          assess_audio ?rt (js ''key'') (js ''eastus'') (Str (js ''en-US'')) (Str (js ''hi'')) ?buf h =
          (case recognizeOnce ?rt (js ''key'') (js ''eastus'') (Str (js ''en-US'')) (Str (js ''hi''))
                  (sampleRate h) [9, 8, 7, 6, 5] of
             Inl err \<Rightarrow> caught err
           | Inr res \<Rightarrow>
               \<lparr>status = 200,
                headers = [(js ''Content-Type'', js ''application/json; charset=utf-8'')],
                jsonBody = AssessBody
                  \<lparr>res_locale = Str (js ''en-US''),
                   res_referenceText = Str (js ''hi''),
                   recognizedText = js_or (result_text res) (Str []),
                   accuracyScore = nullish_or (pa_accuracyScore res) (Num 0),
                   pronunciationScore = nullish_or (pa_pronunciationScore res) (Num 0),
                   completenessScore = nullish_or (pa_completenessScore res) (Num 0),
                   fluencyScore = nullish_or (pa_fluencyScore res) (Num 0),
                   prosodyScore = nullish_or (pa_prosodyScore res) Null,
                   audioInfo = h,
                   raw = rawJson ?rt res\<rparr>\<rparr>)"
    by blast
  have "parseWav ?buf =
     Inr \<lparr>audioFormat = 1, numChannels = 1, sampleRate = 16000, bitsPerSample = 16,
          dataOffset = 56, dataSize = 5, pcmBytes = 5\<rparr>"
    by (simp add: container_eval parse_eval bytes_def)
  with h have f: "audioFormat h = 1 \<and> numChannels h = 1 \<and> bitsPerSample h = 16"
    by auto
  with a have "status (assess_audio ?rt (js ''key'') (js ''eastus'') (Str (js ''en-US''))
      (Str (js ''hi'')) ?buf h) = 200"
    by simp
  with h n s f show ?thesis by blast
qed

text \<open>
  Claim C6. A pass of the loop that continues moves the cursor by 8, the declared length
  and one more byte when that length is odd, whatever the tag; from an even offset it
  reaches an even offset (the scan starts at 12). And the three-chunk container whose
  middle chunk has odd length parses its third chunk where it stands: behind the padding
  byte.
\<close>

theorem odd_chunks_are_padded:
  "(loop_body buf st = Continue st' \<and> readUInt32LE buf (offset st + 4) = Inr n
      \<longrightarrow> offset st' = offset st + 8 + n + (if odd n then 1 else 0)
          \<and> (even (offset st) \<longrightarrow> even (offset st')))
   \<and> (other_chunk c \<and> odd (length (payload c))
        \<and> 16 \<le> length f \<and> even (length f) \<and> length f < 2 ^ 32 \<and> length d < 2 ^ 32
      \<longrightarrow> parseWav (wav_container [Chunk (bytes ''fmt '') f, c, Chunk (bytes ''data'') d]) =
            Inr \<lparr>audioFormat = u16_at f 0, numChannels = u16_at f 2,
                 sampleRate = u32_at f 4, bitsPerSample = u16_at f 14,
                 dataOffset = 12 + (8 + length f) + (8 + length (payload c) + 1) + 8,
                 dataSize = length d, pcmBytes = length d\<rparr>)"
proof (intro conjI impI)
  assume a: "loop_body buf st = Continue st' \<and> readUInt32LE buf (offset st + 4) = Inr n"
  then show off: "offset st' = offset st + 8 + n + (if odd n then 1 else 0)"
    using loop_body_next_offset by blast
  assume "even (offset st)"
  with off show "even (offset st')" by simp
next
  assume a: "other_chunk c \<and> odd (length (payload c))
        \<and> 16 \<le> length f \<and> even (length f) \<and> length f < 2 ^ 32 \<and> length d < 2 ^ 32"
  then have wf: "length (tag c) = 4" by (simp add: other_chunk_def wellformed_chunk_def)
  have "parseWav (wav_container ([] @ [Chunk (bytes ''fmt '') f] @ [c] @ [Chunk (bytes ''data'') d] @ [])) =
     Inr \<lparr>audioFormat = u16_at f 0, numChannels = u16_at f 2,
          sampleRate = u32_at f 4, bitsPerSample = u16_at f 14,
          dataOffset = 20 + length (encode_chunks ([] @ [Chunk (bytes ''fmt '') f] @ [c])),
          dataSize = length d, pcmBytes = length d\<rparr>"
    using a by (intro parseWav_fmt_then_data) simp_all
  moreover have "length (encode_chunks ([] @ [Chunk (bytes ''fmt '') f] @ [c]))
      = (8 + length f) + (8 + length (payload c) + 1)"
    using a wf by (simp add: encode_chunk_def bytes_tags)
  ultimately show "parseWav (wav_container [Chunk (bytes ''fmt '') f, c, Chunk (bytes ''data'') d]) =
            Inr \<lparr>audioFormat = u16_at f 0, numChannels = u16_at f 2,
                 sampleRate = u32_at f 4, bitsPerSample = u16_at f 14,
                 dataOffset = 12 + (8 + length f) + (8 + length (payload c) + 1) + 8,
                 dataSize = length d, pcmBytes = length d\<rparr>"
    by simp
qed

text \<open>An instance: a \<open>LIST\<close> chunk of three bytes between \<open>fmt\<close> and \<open>data\<close>.\<close>

theorem odd_chunks_are_padded_witness:
  "loop_body
     (wav_container
        [Chunk (bytes ''fmt '') [1, 0, 1, 0, 0x80, 0x3E, 0, 0, 0, 0x7D, 0, 0, 2, 0, 16, 0],
         Chunk (bytes ''LIST'') [1, 2, 3],
         Chunk (bytes ''data'') [9, 8, 7, 6]])
     \<lparr>offset = 36,
      fmt = Some \<lparr>audioFormat = 1, numChannels = 1, sampleRate = 16000, bitsPerSample = 16\<rparr>,
      data = None\<rparr>
   = Continue
       \<lparr>offset = 48,
        fmt = Some \<lparr>audioFormat = 1, numChannels = 1, sampleRate = 16000, bitsPerSample = 16\<rparr>,
        data = None\<rparr>
   \<and> (48 :: nat) = 36 + 8 + 3 + 1
   \<and> parseWav
       (wav_container
          [Chunk (bytes ''fmt '') [1, 0, 1, 0, 0x80, 0x3E, 0, 0, 0, 0x7D, 0, 0, 2, 0, 16, 0],
           Chunk (bytes ''LIST'') [1, 2, 3],
           Chunk (bytes ''data'') [9, 8, 7, 6]])
     = Inr \<lparr>audioFormat = 1, numChannels = 1, sampleRate = 16000, bitsPerSample = 16,
            dataOffset = 56, dataSize = 4, pcmBytes = 4\<rparr>"
  using odd_chunks_are_padded
    [of "wav_container
           [Chunk (bytes ''fmt '') [1, 0, 1, 0, 0x80, 0x3E, 0, 0, 0, 0x7D, 0, 0, 2, 0, 16, 0],
            Chunk (bytes ''LIST'') [1, 2, 3],
            Chunk (bytes ''data'') [9, 8, 7, 6]]"
        "\<lparr>offset = 36,
          fmt = Some \<lparr>audioFormat = 1, numChannels = 1, sampleRate = 16000, bitsPerSample = 16\<rparr>,
          data = None\<rparr>"
        "\<lparr>offset = 48,
          fmt = Some \<lparr>audioFormat = 1, numChannels = 1, sampleRate = 16000, bitsPerSample = 16\<rparr>,
          data = None\<rparr>"
        3
        "Chunk (bytes ''LIST'') [1, 2, 3]"
        "[1, 0, 1, 0, 0x80, 0x3E, 0, 0, 0, 0x7D, 0, 0, 2, 0, 16, 0]"
        "[9, 8, 7, 6]"]
  by (simp add: container_eval parse_eval chunk_eval)

text \<open>
  Claim C9. With several \<open>fmt\<close> chunks or several \<open>data\<close> chunks, the header has the
  fields of the last \<open>fmt\<close> chunk and the window of the last \<open>data\<close> chunk: \<open>xs\<close> and
  \<open>xs'\<close> may hold earlier ones, and the chunks behind both are still scanned.
\<close>

theorem last_fmt_and_last_data_win:
  assumes "list_all scannable cs"
    and "cs = xs @ F # ys" and "is_fmt F" and "list_all (\<lambda>c. \<not> is_fmt c) ys"
    and "cs = xs' @ D # ys'" and "is_data D" and "list_all (\<lambda>c. \<not> is_data c) ys'"
  shows "parseWav (wav_container cs) =
     Inr \<lparr>audioFormat = u16_at (payload F) 0, numChannels = u16_at (payload F) 2,
          sampleRate = u32_at (payload F) 4, bitsPerSample = u16_at (payload F) 14,
          dataOffset = 20 + length (encode_chunks xs'), dataSize = length (payload D),
          pcmBytes = length (payload D)\<rparr>"
  using assms by (rule parseWav_last_chunks)

text \<open>An instance: a stereo \<open>fmt\<close> and a first \<open>data\<close> chunk are overwritten.\<close>

theorem last_fmt_and_last_data_win_witness:
  "parseWav (wav_container
     [Chunk (bytes ''fmt '') [1, 0, 2, 0, 0x44, 0xAC, 0, 0, 0, 0, 0, 0, 4, 0, 8, 0, 0, 0],
      Chunk (bytes ''data'') [1, 2],
      Chunk (bytes ''fmt '') [1, 0, 1, 0, 0x80, 0x3E, 0, 0, 0, 0x7D, 0, 0, 2, 0, 16, 0],
      Chunk (bytes ''data'') [3, 4, 5],
      Chunk (bytes ''LIST'') [7]])
   = Inr \<lparr>audioFormat = 1, numChannels = 1, sampleRate = 16000, bitsPerSample = 16,
          dataOffset = 80, dataSize = 3, pcmBytes = 3\<rparr>"
  using last_fmt_and_last_data_win
    [of "[Chunk (bytes ''fmt '') [1, 0, 2, 0, 0x44, 0xAC, 0, 0, 0, 0, 0, 0, 4, 0, 8, 0, 0, 0],
          Chunk (bytes ''data'') [1, 2],
          Chunk (bytes ''fmt '') [1, 0, 1, 0, 0x80, 0x3E, 0, 0, 0, 0x7D, 0, 0, 2, 0, 16, 0],
          Chunk (bytes ''data'') [3, 4, 5],
          Chunk (bytes ''LIST'') [7]]"
        "[Chunk (bytes ''fmt '') [1, 0, 2, 0, 0x44, 0xAC, 0, 0, 0, 0, 0, 0, 4, 0, 8, 0, 0, 0],
          Chunk (bytes ''data'') [1, 2]]"
        "Chunk (bytes ''fmt '') [1, 0, 1, 0, 0x80, 0x3E, 0, 0, 0, 0x7D, 0, 0, 2, 0, 16, 0]"
        "[Chunk (bytes ''data'') [3, 4, 5], Chunk (bytes ''LIST'') [7]]"
        "[Chunk (bytes ''fmt '') [1, 0, 2, 0, 0x44, 0xAC, 0, 0, 0, 0, 0, 0, 4, 0, 8, 0, 0, 0],
          Chunk (bytes ''data'') [1, 2],
          Chunk (bytes ''fmt '') [1, 0, 1, 0, 0x80, 0x3E, 0, 0, 0, 0x7D, 0, 0, 2, 0, 16, 0]]"
        "Chunk (bytes ''data'') [3, 4, 5]"
        "[Chunk (bytes ''LIST'') [7]]"]
  by (simp add: chunk_eval u16_at_def u32_at_def encode_chunk_def le32_def)

text \<open>
  Claim C5, at a buffer whose first byte is \<open>0xD2\<close>, the letter R with its highest bit
  set: the first four bytes are not \<open>RIFF\<close>, and \<open>parseWav\<close> returns a header instead of
  throwing. The comparison is made on the text that \<open>toString("ascii", 0, 4)\<close> returns,
  which has lost the highest bit of every byte. (That a buffer shorter than 12 bytes is
  refused, that wrong tags made of ASCII bytes are refused, and that no read leaves the
  buffer, are \<open>parseWav_short_buffer\<close>, \<open>parseWav_wrong_magic\<close> and
  \<open>parseWav_never_reads_out_of_range\<close>.)
\<close>

theorem high_bit_magic_is_accepted:
  "take 4 ([0xD2, 0x49, 0x46, 0x46] @ le32 40 @ bytes ''WAVE''
           @ encode_chunks
               [Chunk (bytes ''fmt '') [1, 0, 1, 0, 0x80, 0x3E, 0, 0, 0, 0x7D, 0, 0, 2, 0, 16, 0],
                Chunk (bytes ''data'') [1, 2, 3, 4]]) \<noteq> bytes ''RIFF''
   \<and> parseWav ([0xD2, 0x49, 0x46, 0x46] @ le32 40 @ bytes ''WAVE''
           @ encode_chunks
               [Chunk (bytes ''fmt '') [1, 0, 1, 0, 0x80, 0x3E, 0, 0, 0, 0x7D, 0, 0, 2, 0, 16, 0],
                Chunk (bytes ''data'') [1, 2, 3, 4]])
     = Inr \<lparr>audioFormat = 1, numChannels = 1, sampleRate = 16000, bitsPerSample = 16,
            dataOffset = 44, dataSize = 4, pcmBytes = 4\<rparr>"
  by (simp add: container_eval parse_eval)

text \<open>So the error for a wrong magic tag is not thrown for this buffer.\<close>

theorem high_bit_magic_is_accepted_witness:
  "parseWav ([0xD2, 0x49, 0x46, 0x46] @ le32 40 @ bytes ''WAVE''
           @ encode_chunks
               [Chunk (bytes ''fmt '') [1, 0, 1, 0, 0x80, 0x3E, 0, 0, 0, 0x7D, 0, 0, 2, 0, 16, 0],
                Chunk (bytes ''data'') [1, 2, 3, 4]])
     \<noteq> Inl (Error (js ''Invalid WAV: expected RIFF/WAVE.''))"
  using high_bit_magic_is_accepted by simp

section \<open>Claims about the handlers\<close>

lemma request_fieldsD:
  assumes "request_fields rt request = Some (a, r, l)"
  obtains body where "readJsonBody rt request = Inr body"
    and "a = get_property (js_or body (Obj [])) (js ''audioBase64'')"
    and "r = get_property (js_or body (Obj [])) (js ''referenceText'')"
    and "l = get_property (js_or body (Obj [])) (js ''locale'')"
    and "truthy a" and "truthy r" and "truthy l"
proof (cases "readJsonBody rt request")
  case (Inl err)
  with assms show ?thesis by (simp add: request_fields_def)
next
  case (Inr body)
  with assms that [of body] show ?thesis
    by (simp add: request_fields_def Let_def split: if_splits)
qed

lemma configuredD:
  assumes "configured env = Some (key, region)"
  shows "speechKey env = Some key" and "speechRegion env = Some region"
    and "key \<noteq> []" and "region \<noteq> []"
  using assms
  by (simp_all add: configured_def split: option.splits if_splits)

lemma assess_after_checks:
  assumes "request_fields rt request = Some (a, r, l)" and "configured env = Some (key, region)"
  shows "assess rt env request =
     (case Buffer_from_base64 rt a of
        Inl err \<Rightarrow> caught err
      | Inr wavBuffer \<Rightarrow>
         (case parseWav wavBuffer of
            Inl err \<Rightarrow> caught err
          | Inr header \<Rightarrow> assess_audio rt key region l r wavBuffer header))"
proof -
  from assms(1) obtain body where "readJsonBody rt request = Inr body"
    and "a = get_property (js_or body (Obj [])) (js ''audioBase64'')"
    and "r = get_property (js_or body (Obj [])) (js ''referenceText'')"
    and "l = get_property (js_or body (Obj [])) (js ''locale'')"
    and "truthy a" and "truthy r" and "truthy l"
    by (rule request_fieldsD)
  then show ?thesis
    using configuredD [OF assms(2)] by (simp add: assess_def Let_def split: sum.splits)
qed

lemma assess_not_configured:
  assumes "request_fields rt request = Some (a, r, l)" and "configured env = None"
  shows "assess rt env request =
     error_response 500 (js ''Missing SPEECH_KEY or SPEECH_REGION in environment.'')"
proof -
  from assms(1) obtain body where "readJsonBody rt request = Inr body"
    and "a = get_property (js_or body (Obj [])) (js ''audioBase64'')"
    and "r = get_property (js_or body (Obj [])) (js ''referenceText'')"
    and "l = get_property (js_or body (Obj [])) (js ''locale'')"
    and "truthy a" and "truthy r" and "truthy l"
    by (rule request_fieldsD)
  moreover from assms(2) have
    "(case (speechKey env, speechRegion env) of
        (Some key, Some region) \<Rightarrow> (if key = [] \<or> region = [] then X else Y key region)
      | _ \<Rightarrow> X) = X" for X :: response and Y
    by (auto simp: configured_def split: option.splits if_splits)
  ultimately show ?thesis
    by (simp add: assess_def Let_def)
qed

lemma parse_errors_text:
  assumes "err \<in> parse_errors"
  obtains m where "err = Error m" and "error_text err = m"
  using assms by (auto simp: parse_errors_def js_def)

lemma readJsonBody_throws:
  assumes "readJsonBody rt request = Inl err"
  shows "err = Error (js ''Invalid JSON body (could not decode as UTF-8 or UTF-16LE).'')"
  using assms by (simp add: readJsonBody_def split: option.splits)

lemma assess_decode_error:
  assumes "readJsonBody rt request = Inl err"
  shows "assess rt env request = caught err"
  using assms by (simp add: assess_def)

lemma caught_text:
  "caught (Error (js ''Invalid JSON body (could not decode as UTF-8 or UTF-16LE).'')) =
     \<lparr>status = 500, headers = [],
      jsonBody = ErrorBody (js ''Invalid JSON body (could not decode as UTF-8 or UTF-16LE).'')\<rparr>"
  by (simp add: caught_def js_def)

lemma utf16_unit:
  "ucast (ucast w :: byte) OR push_bit 8 (ucast (ucast (drop_bit 8 w) :: byte)) = (w :: 16 word)"
  by (rule bit_word_eqI) (auto simp: bit_simps)

lemma utf16le_roundtrip: "toString_utf16le (utf16le_bytes s) = s"
  by (induction s) (simp_all add: utf16le_bytes_def utf16_unit)

lemma js_append: "js (s @ t) = js s @ js t"
  by (simp add: js_def)

lemma decode_error_names_encodings:
  "sublist (js ''UTF-8'') (js ''Invalid JSON body (could not decode as UTF-8 or UTF-16LE).'')"
  "sublist (js ''UTF-16LE'') (js ''Invalid JSON body (could not decode as UTF-8 or UTF-16LE).'')"
proof -
  have "''Invalid JSON body (could not decode as UTF-8 or UTF-16LE).''
      = ''Invalid JSON body (could not decode as '' @ ''UTF-8'' @ '' or UTF-16LE).''"
    by simp
  then have "js ''Invalid JSON body (could not decode as UTF-8 or UTF-16LE).''
      = js ''Invalid JSON body (could not decode as '' @ js ''UTF-8'' @ js '' or UTF-16LE).''"
    by (simp only: js_append)
  then show "sublist (js ''UTF-8'') (js ''Invalid JSON body (could not decode as UTF-8 or UTF-16LE).'')"
    unfolding sublist_def by blast
  have "''Invalid JSON body (could not decode as UTF-8 or UTF-16LE).''
      = ''Invalid JSON body (could not decode as UTF-8 or '' @ ''UTF-16LE'' @ '').''"
    by simp
  then have "js ''Invalid JSON body (could not decode as UTF-8 or UTF-16LE).''
      = js ''Invalid JSON body (could not decode as UTF-8 or '' @ js ''UTF-16LE'' @ js '').''"
    by (simp only: js_append)
  then show "sublist (js ''UTF-16LE'') (js ''Invalid JSON body (could not decode as UTF-8 or UTF-16LE).'')"
    unfolding sublist_def by blast
qed

lemma token_without_key:
  assumes "\<not> env_truthy (env ''SPEECH_KEY'')"
  shows "token rt env = error_response 500 (js ''Missing SPEECH_KEY in local.settings.json'')"
  using assms by (auto simp: token_def env_truthy_def Let_def split: option.splits)

lemma token_with_key:
  assumes "env ''SPEECH_KEY'' = Some k" and "k \<noteq> []"
  shows "token rt env =
     (case issueToken rt (token_region env @ js ''.api.cognitive.microsoft.com'') k of
        Responded statusCode data' \<Rightarrow>
          (if 200 \<le> statusCode \<and> statusCode < 300
           then \<lparr>status = 200, headers = [], jsonBody = TokenBody data' (token_region env)\<rparr>
           else error_response 500
                  (js ''Token request failed: '' @ js (decimal statusCode) @ js '' '' @ data'))
      | Failed msg \<Rightarrow> error_response 500 msg)"
  using assms by (simp add: token_def Let_def)

lemma token_ignores_azure_names:
  "token rt (env(''AZURE_SPEECH_KEY'' := x, ''AZURE_SPEECH_REGION'' := y)) = token rt env"
  by (simp add: token_def token_region_def)

lemma configured_iff:
  "configured env = None \<longleftrightarrow> \<not> env_truthy (speechKey env) \<or> \<not> env_truthy (speechRegion env)"
  by (auto simp: configured_def env_truthy_def split: option.splits)

lemma unbase64_eq: "unbase64 0x3D = None"
  by (simp add: unbase64_def)




lemma decode_QUJD:
  "one_byte (js ''QUJD'')" "base64_decode (js ''QUJD'') = [0x41, 0x42, 0x43]"
  by (simp_all add: one_byte_def js_def base64_decode_def unbase64_def)

lemma decode_QU_JD:
  "one_byte (js ''QU JD!'')" "base64_decode (js ''QU JD!'') = [0x41, 0x42, 0x43]"
  by (simp_all add: one_byte_def js_def base64_decode_def unbase64_def)

lemma decode_example_audio:
  "one_byte (js example_audio)" "base64_decode (js example_audio) = example_wav"
  by (simp_all add: one_byte_def js_def base64_decode_def unbase64_def example_audio_def
        example_wav_def container_eval)


lemmas example_eval =
  example_runtime_def example_json_def example_object_def example_audio_def example_env_def
  quoted_def bytes_def js_def request_fields_def readJsonBody_def configured_def speechKey_def
  speechRegion_def env_or_def env_truthy_def js_or_def Buffer_from_base64_def one_byte_def
  base64_decode_def unbase64_def

lemma example_wav_header:
  "parseWav example_wav =
     Inr \<lparr>audioFormat = 1, numChannels = 1, sampleRate = 16000, bitsPerSample = 16,
          dataOffset = 44, dataSize = 4, pcmBytes = 4\<rparr>"
  by (simp add: example_wav_def container_eval parse_eval)

lemma example_wav_samples: "subarray example_wav 44 48 = [1, 2, 3, 4]"
  by (simp add: example_wav_def container_eval subarray_def)

lemma example_requests:
  "request_fields example_runtime (bytes (example_json ''QUJD''))
     = Some (Str (js ''QUJD''), Str (js ''hi''), Str (js ''en-US''))"
  "request_fields example_runtime (bytes (example_json example_audio))
     = Some (Str (js example_audio), Str (js ''hi''), Str (js ''en-US''))"
  by (simp_all add: example_eval)

lemma example_configuration:
  "speechKey example_env = Some (js ''key'')" "speechRegion example_env = Some (js ''eastus'')"
  "speechKey (\<lambda>name. None) = None"
  by (simp_all add: speechKey_def speechRegion_def env_or_def env_truthy_def example_env_def js_def)

lemma example_buffer:
  "Buffer_from_base64 example_runtime (Str (js example_audio)) = Inr example_wav"
  by (simp add: Buffer_from_base64_def decode_example_audio)

lemma example_recognition:
  "assess_audio example_runtime (js ''key'') (js ''eastus'') (Str (js ''en-US'')) (Str (js ''hi''))
     example_wav
     \<lparr>audioFormat = 1, numChannels = 1, sampleRate = 16000, bitsPerSample = 16,
      dataOffset = 44, dataSize = 4, pcmBytes = 4\<rparr>
   = \<lparr>status = 200,
      headers = [(js ''Content-Type'', js ''application/json; charset=utf-8'')],
      jsonBody = AssessBody
        \<lparr>res_locale = Str (js ''en-US''), res_referenceText = Str (js ''hi''),
         recognizedText = Str (js ''hi''),
         accuracyScore = Num 0x4059000000000000,
         pronunciationScore = Num 0x4059000000000000,
         completenessScore = Num 0x4059000000000000,
         fluencyScore = Num 0x4059000000000000,
         prosodyScore = Null,
         audioInfo = \<lparr>audioFormat = 1, numChannels = 1, sampleRate = 16000,
                      bitsPerSample = 16, dataOffset = 44, dataSize = 4, pcmBytes = 4\<rparr>,
         raw = Null\<rparr>\<rparr>"
  by (simp add: assess_audio_def example_runtime_def example_result_def nullish_or_def
        js_or_def rawJson_def Let_def)

text \<open>
  Claim C1, as the code has it. Each of these errors is answered with HTTP 500 and an
  \<open>{ error: string }\<close> body that carries the message of the error, not with 400: a body
  that is not JSON under either encoding, always; and an error thrown by \<open>parseWav\<close>
  (bad magic tags or a short \<open>fmt\<close> chunk, a missing \<open>fmt\<close> chunk, a missing \<open>data\<close>
  chunk), for a request that has its three fields, under a configured key and region.
  Both are thrown inside the \<open>try\<close> and end in its single \<open>catch\<close>.
\<close>

theorem thrown_errors_answer_500:
  "(readJsonBody rt request = Inl err \<longrightarrow>
      assess rt env request =
        \<lparr>status = 500, headers = [],
         jsonBody = ErrorBody (js ''Invalid JSON body (could not decode as UTF-8 or UTF-16LE).'')\<rparr>)
   \<and> (request_fields rt request' = Some (a, r, l) \<and> configured env' = Some (key, region)
        \<and> Buffer_from_base64 rt a = Inr wavBuffer \<and> parseWav wavBuffer = Inl err' \<longrightarrow>
      err' \<in> parse_errors
      \<and> (\<exists>m. err' = Error m
            \<and> assess rt env' request' = \<lparr>status = 500, headers = [], jsonBody = ErrorBody m\<rparr>))"
proof (intro conjI impI)
  assume e: "readJsonBody rt request = Inl err"
  then have "assess rt env request = caught err" by (rule assess_decode_error)
  with readJsonBody_throws [OF e] caught_text
  show "assess rt env request =
        \<lparr>status = 500, headers = [],
         jsonBody = ErrorBody (js ''Invalid JSON body (could not decode as UTF-8 or UTF-16LE).'')\<rparr>"
    by simp
next
  assume h: "request_fields rt request' = Some (a, r, l) \<and> configured env' = Some (key, region)
        \<and> Buffer_from_base64 rt a = Inr wavBuffer \<and> parseWav wavBuffer = Inl err'"
  then show pe: "err' \<in> parse_errors" using parseWav_throws by blast
  then obtain m where m: "err' = Error m" "error_text err' = m" by (rule parse_errors_text)
  from h have "assess rt env' request' = caught err'"
    using assess_after_checks [of rt request' a r l env' key region] by simp
  with m show "\<exists>m. err' = Error m
            \<and> assess rt env' request' = \<lparr>status = 500, headers = [], jsonBody = ErrorBody m\<rparr>"
    by (simp add: caught_def)
qed

text \<open>
  The claim as the specification states it (these errors are answered with 400) fails: a
  body that is not JSON and an audio of three bytes are both answered with 500.
\<close>

theorem thrown_errors_are_not_400:
  "readJsonBody example_runtime (bytes ''not json'')
     = Inl (Error (js ''Invalid JSON body (could not decode as UTF-8 or UTF-16LE).''))
   \<and> status (assess example_runtime example_env (bytes ''not json'')) = 500
   \<and> status (assess example_runtime example_env (bytes ''not json'')) \<noteq> 400
   \<and> parseWav [0x41, 0x42, 0x43] = Inl (Error (js ''Invalid WAV buffer.''))
   \<and> assess example_runtime example_env (bytes (example_json ''QUJD''))
      = \<lparr>status = 500, headers = [], jsonBody = ErrorBody (js ''Invalid WAV buffer.'')\<rparr>"
  by (simp add: example_eval assess_def caught_def parseWav_def Let_def)

text \<open>The same two requests as an instance of the theorem.\<close>

theorem thrown_errors_answer_500_witness:
  "readJsonBody example_runtime (bytes ''not json'')
     = Inl (Error (js ''Invalid JSON body (could not decode as UTF-8 or UTF-16LE).''))
   \<and> assess example_runtime example_env (bytes ''not json'')
     = \<lparr>status = 500, headers = [],
        jsonBody = ErrorBody (js ''Invalid JSON body (could not decode as UTF-8 or UTF-16LE).'')\<rparr>
   \<and> request_fields example_runtime (bytes (example_json ''QUJD''))
       = Some (Str (js ''QUJD''), Str (js ''hi''), Str (js ''en-US''))
   \<and> configured example_env = Some (js ''key'', js ''eastus'')
   \<and> Buffer_from_base64 example_runtime (Str (js ''QUJD'')) = Inr [0x41, 0x42, 0x43]
   \<and> parseWav [0x41, 0x42, 0x43] = Inl (Error (js ''Invalid WAV buffer.''))
   \<and> Error (js ''Invalid WAV buffer.'') \<in> parse_errors
   \<and> (\<exists>m. Error (js ''Invalid WAV buffer.'') = Error m
        \<and> assess example_runtime example_env (bytes (example_json ''QUJD''))
          = \<lparr>status = 500, headers = [], jsonBody = ErrorBody m\<rparr>)"
  using thrown_errors_answer_500
    [of example_runtime "bytes ''not json''"
        "Error (js ''Invalid JSON body (could not decode as UTF-8 or UTF-16LE).'')"
        example_env
        "bytes (example_json ''QUJD'')" "Str (js ''QUJD'')" "Str (js ''hi'')" "Str (js ''en-US'')"
        example_env "js ''key''" "js ''eastus''" "[0x41, 0x42, 0x43]"
        "Error (js ''Invalid WAV buffer.'')"]
  by (simp add: example_eval parseWav_def)

text \<open>
  Claim C2, as the code has it. The assess handler reads the key from \<open>SPEECH_KEY\<close>, else
  \<open>AZURE_SPEECH_KEY\<close>, and the region from \<open>SPEECH_REGION\<close>, else \<open>AZURE_SPEECH_REGION\<close> (the
  first that is set and not empty), has no default, answers 500 to a request with its three
  fields when the key or the region is missing, and otherwise hands that key and region on
  with the parsed audio. The token handler reads \<open>SPEECH_KEY\<close> and \<open>SPEECH_REGION\<close> only: the
  region defaults to \<open>canadacentral\<close>, a missing key is answered with 500, and the two
  \<open>AZURE_\<close> names have no effect on it.
\<close>

theorem configuration_of_the_two_handlers:
  "speechKey env =
     (if env_truthy (env ''SPEECH_KEY'') then env ''SPEECH_KEY'' else env ''AZURE_SPEECH_KEY'')
   \<and> speechRegion env =
     (if env_truthy (env ''SPEECH_REGION'') then env ''SPEECH_REGION''
      else env ''AZURE_SPEECH_REGION'')
   \<and> (request_fields rt request1 = Some (a1, r1, l1)
        \<and> (\<not> env_truthy (speechKey env1) \<or> \<not> env_truthy (speechRegion env1)) \<longrightarrow>
      assess rt env1 request1 =
        \<lparr>status = 500, headers = [],
         jsonBody = ErrorBody (js ''Missing SPEECH_KEY or SPEECH_REGION in environment.'')\<rparr>)
   \<and> (request_fields rt request2 = Some (a2, r2, l2)
        \<and> speechKey env2 = Some key \<and> key \<noteq> []
        \<and> speechRegion env2 = Some region \<and> region \<noteq> []
        \<and> Buffer_from_base64 rt a2 = Inr wavBuffer \<and> parseWav wavBuffer = Inr header \<longrightarrow>
      assess rt env2 request2 = assess_audio rt key region l2 r2 wavBuffer header)
   \<and> token_region env =
     (if env_truthy (env ''SPEECH_REGION'') then the (env ''SPEECH_REGION'')
      else js ''canadacentral'')
   \<and> (\<not> env_truthy (env3 ''SPEECH_KEY'') \<longrightarrow>
      token rt env3 =
        \<lparr>status = 500, headers = [],
         jsonBody = ErrorBody (js ''Missing SPEECH_KEY in local.settings.json'')\<rparr>)
   \<and> (env4 ''SPEECH_KEY'' = Some k \<and> k \<noteq> [] \<longrightarrow>
      token rt env4 =
        (case issueToken rt (token_region env4 @ js ''.api.cognitive.microsoft.com'') k of
           Responded statusCode data' \<Rightarrow>
             (if 200 \<le> statusCode \<and> statusCode < 300
              then \<lparr>status = 200, headers = [],
                    jsonBody = TokenBody data' (token_region env4)\<rparr>
              else error_response 500
                     (js ''Token request failed: '' @ js (decimal statusCode) @ js '' '' @ data'))
         | Failed msg \<Rightarrow> error_response 500 msg))
   \<and> token rt (env(''AZURE_SPEECH_KEY'' := x, ''AZURE_SPEECH_REGION'' := y)) = token rt env"
proof (intro conjI impI)
  show "speechKey env =
     (if env_truthy (env ''SPEECH_KEY'') then env ''SPEECH_KEY'' else env ''AZURE_SPEECH_KEY'')"
    by (simp add: speechKey_def env_or_def)
  show "speechRegion env =
     (if env_truthy (env ''SPEECH_REGION'') then env ''SPEECH_REGION''
      else env ''AZURE_SPEECH_REGION'')"
    by (simp add: speechRegion_def env_or_def)
  show "token_region env =
     (if env_truthy (env ''SPEECH_REGION'') then the (env ''SPEECH_REGION'')
      else js ''canadacentral'')"
    by (simp add: token_region_def env_truthy_def split: option.splits)
  show "token rt (env(''AZURE_SPEECH_KEY'' := x, ''AZURE_SPEECH_REGION'' := y)) = token rt env"
    by (rule token_ignores_azure_names)
next
  assume "request_fields rt request1 = Some (a1, r1, l1)
        \<and> (\<not> env_truthy (speechKey env1) \<or> \<not> env_truthy (speechRegion env1))"
  then have "request_fields rt request1 = Some (a1, r1, l1)" and "configured env1 = None"
    by (simp_all add: configured_iff)
  then show "assess rt env1 request1 =
        \<lparr>status = 500, headers = [],
         jsonBody = ErrorBody (js ''Missing SPEECH_KEY or SPEECH_REGION in environment.'')\<rparr>"
    using assess_not_configured [of rt request1 a1 r1 l1 env1] by (simp add: error_response_def)
next
  assume h: "request_fields rt request2 = Some (a2, r2, l2)
        \<and> speechKey env2 = Some key \<and> key \<noteq> []
        \<and> speechRegion env2 = Some region \<and> region \<noteq> []
        \<and> Buffer_from_base64 rt a2 = Inr wavBuffer \<and> parseWav wavBuffer = Inr header"
  then have "configured env2 = Some (key, region)" by (simp add: configured_def)
  with h show "assess rt env2 request2 = assess_audio rt key region l2 r2 wavBuffer header"
    using assess_after_checks [of rt request2 a2 r2 l2 env2 key region] by simp
next
  assume "\<not> env_truthy (env3 ''SPEECH_KEY'')"
  then show "token rt env3 =
        \<lparr>status = 500, headers = [],
         jsonBody = ErrorBody (js ''Missing SPEECH_KEY in local.settings.json'')\<rparr>"
    using token_without_key [of env3 rt] by (simp add: error_response_def)
next
  assume "env4 ''SPEECH_KEY'' = Some k \<and> k \<noteq> []"
  then show "token rt env4 =
        (case issueToken rt (token_region env4 @ js ''.api.cognitive.microsoft.com'') k of
           Responded statusCode data' \<Rightarrow>
             (if 200 \<le> statusCode \<and> statusCode < 300
              then \<lparr>status = 200, headers = [],
                    jsonBody = TokenBody data' (token_region env4)\<rparr>
              else error_response 500
                     (js ''Token request failed: '' @ js (decimal statusCode) @ js '' '' @ data'))
         | Failed msg \<Rightarrow> error_response 500 msg)"
    using token_with_key [of env4 k rt] by simp
qed

text \<open>
  The claim as the specification states it (both handlers accept two names) fails for the
  token handler: with the key only under \<open>AZURE_SPEECH_KEY\<close>, which the assess handler
  accepts, it answers that the key is missing; and a region only under
  \<open>AZURE_SPEECH_REGION\<close> leaves it at the default.
\<close>

theorem token_reads_one_name_only:
  "speechKey example_env = Some (js ''key'')
   \<and> token example_runtime example_env
     = \<lparr>status = 500, headers = [],
        jsonBody = ErrorBody (js ''Missing SPEECH_KEY in local.settings.json'')\<rparr>
   \<and> speechRegion
        (\<lambda>name. if name = ''AZURE_SPEECH_REGION'' then Some (js ''eastus'') else None)
     = Some (js ''eastus'')
   \<and> token_region
        (\<lambda>name. if name = ''AZURE_SPEECH_REGION'' then Some (js ''eastus'') else None)
     = js ''canadacentral''"
  by (simp add: example_eval token_def token_region_def error_response_def)

text \<open>
  An instance: an empty environment, the example environment with a valid audio (answered
  with 200), and the token handler with and without its key.
\<close>

theorem configuration_of_the_two_handlers_witness:
  "speechKey example_env = Some (js ''key'')
   \<and> speechRegion example_env = Some (js ''eastus'')
   \<and> request_fields example_runtime (bytes (example_json ''QUJD''))
       = Some (Str (js ''QUJD''), Str (js ''hi''), Str (js ''en-US''))
   \<and> assess example_runtime (\<lambda>name. None) (bytes (example_json ''QUJD''))
     = \<lparr>status = 500, headers = [],
        jsonBody = ErrorBody (js ''Missing SPEECH_KEY or SPEECH_REGION in environment.'')\<rparr>
   \<and> request_fields example_runtime (bytes (example_json example_audio))
       = Some (Str (js example_audio), Str (js ''hi''), Str (js ''en-US''))
   \<and> Buffer_from_base64 example_runtime (Str (js example_audio)) = Inr example_wav
   \<and> assess example_runtime example_env (bytes (example_json example_audio))
     = \<lparr>status = 200,
        headers = [(js ''Content-Type'', js ''application/json; charset=utf-8'')],
        jsonBody = AssessBody
          \<lparr>res_locale = Str (js ''en-US''), res_referenceText = Str (js ''hi''),
           recognizedText = Str (js ''hi''),
           accuracyScore = Num 0x4059000000000000,
           pronunciationScore = Num 0x4059000000000000,
           completenessScore = Num 0x4059000000000000,
           fluencyScore = Num 0x4059000000000000,
           prosodyScore = Null,
           audioInfo = \<lparr>audioFormat = 1, numChannels = 1, sampleRate = 16000,
                        bitsPerSample = 16, dataOffset = 44, dataSize = 4, pcmBytes = 4\<rparr>,
           raw = Null\<rparr>\<rparr>
   \<and> token_region example_env = js ''eastus''
   \<and> token example_runtime (\<lambda>name. None)
     = \<lparr>status = 500, headers = [],
        jsonBody = ErrorBody (js ''Missing SPEECH_KEY in local.settings.json'')\<rparr>
   \<and> token example_runtime (\<lambda>name. if name = ''SPEECH_KEY'' then Some (js ''key'') else None)
     = \<lparr>status = 200, headers = [],
        jsonBody = TokenBody (js ''token'') (js ''canadacentral'')\<rparr>"
proof -
  note t = configuration_of_the_two_handlers
    [of example_env example_runtime "bytes (example_json ''QUJD'')"
        "Str (js ''QUJD'')" "Str (js ''hi'')" "Str (js ''en-US'')" "\<lambda>name. None"
        "bytes (example_json example_audio)"
        "Str (js example_audio)" "Str (js ''hi'')" "Str (js ''en-US'')" example_env
        "js ''key''" "js ''eastus''" example_wav
        "\<lparr>audioFormat = 1, numChannels = 1, sampleRate = 16000, bitsPerSample = 16,
          dataOffset = 44, dataSize = 4, pcmBytes = 4\<rparr>"
        "\<lambda>name. None"
        "\<lambda>name. if name = ''SPEECH_KEY'' then Some (js ''key'') else None" "js ''key''"
        "Some (js ''other'')" "Some (js ''westus'')"]
  have "assess example_runtime (\<lambda>name. None) (bytes (example_json ''QUJD''))
     = \<lparr>status = 500, headers = [],
        jsonBody = ErrorBody (js ''Missing SPEECH_KEY or SPEECH_REGION in environment.'')\<rparr>"
    using t example_requests(1) example_configuration(3) by (simp add: env_truthy_def)
  moreover have "assess example_runtime example_env (bytes (example_json example_audio))
     = assess_audio example_runtime (js ''key'') (js ''eastus'') (Str (js ''en-US''))
         (Str (js ''hi'')) example_wav
         \<lparr>audioFormat = 1, numChannels = 1, sampleRate = 16000, bitsPerSample = 16,
          dataOffset = 44, dataSize = 4, pcmBytes = 4\<rparr>"
    using t example_requests(2) example_configuration(1,2) example_buffer example_wav_header
    by (simp add: js_def)
  moreover have "token_region example_env = js ''eastus''"
    by (simp add: token_region_def example_env_def js_def)
  moreover have "token example_runtime (\<lambda>name. None)
     = \<lparr>status = 500, headers = [],
        jsonBody = ErrorBody (js ''Missing SPEECH_KEY in local.settings.json'')\<rparr>"
    using t by (simp add: env_truthy_def)
  moreover have "token example_runtime
       (\<lambda>name. if name = ''SPEECH_KEY'' then Some (js ''key'') else None)
     = \<lparr>status = 200, headers = [],
        jsonBody = TokenBody (js ''token'') (js ''canadacentral'')\<rparr>"
  proof -
    have "token example_runtime (\<lambda>name. if name = ''SPEECH_KEY'' then Some (js ''key'') else None) =
        (case issueToken example_runtime
                (token_region (\<lambda>name. if name = ''SPEECH_KEY'' then Some (js ''key'') else None)
                 @ js ''.api.cognitive.microsoft.com'') (js ''key'') of
           Responded statusCode data' \<Rightarrow>
             (if 200 \<le> statusCode \<and> statusCode < 300
              then \<lparr>status = 200, headers = [],
                    jsonBody = TokenBody data'
                      (token_region (\<lambda>name. if name = ''SPEECH_KEY'' then Some (js ''key'') else None))\<rparr>
              else error_response 500
                     (js ''Token request failed: '' @ js (decimal statusCode) @ js '' '' @ data'))
         | Failed msg \<Rightarrow> error_response 500 msg)"
      using t by (simp add: js_def)
    then show ?thesis
      by (simp add: example_runtime_def token_region_def)
  qed
  ultimately show ?thesis
    using example_requests example_configuration(1,2) example_buffer example_recognition
    by simp
qed

text \<open>
  Claim C8. \<open>readJsonBody\<close> parses the UTF-8 reading of the body and returns that when it
  parses; only when it does not, it parses the UTF-16LE reading of the same bytes; the
  UTF-16LE bytes of a JSON text that is not JSON when read as UTF-8 decode to the value of
  that text; and when both readings fail, the error thrown names both encodings in its
  message.
\<close>

theorem utf8_first_then_utf16le:
  "(JSON_parse rt (toString_utf8 rt buf1) = Some v1 \<longrightarrow> readJsonBody rt buf1 = Inr v1)
   \<and> (JSON_parse rt (toString_utf8 rt buf2) = None
        \<and> JSON_parse rt (toString_utf16le buf2) = Some v2
        \<longrightarrow> readJsonBody rt buf2 = Inr v2)
   \<and> (JSON_parse rt s = Some v3 \<and> JSON_parse rt (toString_utf8 rt (utf16le_bytes s)) = None
        \<longrightarrow> readJsonBody rt (utf16le_bytes s) = Inr v3)
   \<and> (JSON_parse rt (toString_utf8 rt buf4) = None
        \<and> JSON_parse rt (toString_utf16le buf4) = None
        \<longrightarrow> (\<exists>m. readJsonBody rt buf4 = Inl (Error m)
               \<and> sublist (js ''UTF-8'') m \<and> sublist (js ''UTF-16LE'') m))"
  using decode_error_names_encodings
  by (simp add: readJsonBody_def utf16le_roundtrip)

text \<open>An instance: \<open>{}\<close> as UTF-8, \<open>{}\<close> as UTF-16LE, and a body that is no JSON.\<close>

theorem utf8_first_then_utf16le_witness:
  "JSON_parse example_runtime (toString_utf8 example_runtime (bytes ''{}'')) = Some (Obj [])
   \<and> readJsonBody example_runtime (bytes ''{}'') = Inr (Obj [])
   \<and> JSON_parse example_runtime (toString_utf8 example_runtime [0x7B, 0, 0x7D, 0]) = None
   \<and> JSON_parse example_runtime (toString_utf16le [0x7B, 0, 0x7D, 0]) = Some (Obj [])
   \<and> readJsonBody example_runtime [0x7B, 0, 0x7D, 0] = Inr (Obj [])
   \<and> utf16le_bytes (js ''{}'') = [0x7B, 0, 0x7D, 0]
   \<and> JSON_parse example_runtime (js ''{}'') = Some (Obj [])
   \<and> readJsonBody example_runtime (utf16le_bytes (js ''{}'')) = Inr (Obj [])
   \<and> JSON_parse example_runtime (toString_utf8 example_runtime (bytes ''not json'')) = None
   \<and> JSON_parse example_runtime (toString_utf16le (bytes ''not json'')) = None
   \<and> readJsonBody example_runtime (bytes ''not json'')
       = Inl (Error (js ''Invalid JSON body (could not decode as UTF-8 or UTF-16LE).''))"
  using utf8_first_then_utf16le
    [of example_runtime "bytes ''{}''" "Obj []" "[0x7B, 0, 0x7D, 0]" "Obj []"
        "js ''{}''" "Obj []" "bytes ''not json''"]
  by (simp add: example_eval utf16le_bytes_def)



end
